theory Spec2Isabelle
  imports
    Main
    "HOL-Library.Word"
    "HOL-Library.Sublist"
    "HOL-Library.Signed_Division"
begin

unbundle bit_operations_syntax

section \<open>Stop-sequence handling (package common, stop.go)\<close>

subsection \<open>Go strings and the library functions the file calls\<close>

text \<open>
  A Go string is a sequence of bytes; \<open>string\<close> (a list of 8-bit characters)
  models it, \<open>length\<close> is Go's \<open>len\<close>.  \<open>strings.HasPrefix\<close>
  and \<open>strings.Index\<close> belong to the Go standard library; they are written
  here after their documentation: \<open>Index\<close> is the index of the first
  instance of the substring, or \<open>-1\<close> when there is none.
\<close>

fun HasPrefix :: "string \<Rightarrow> string \<Rightarrow> bool" where
  "HasPrefix s [] = True"
| "HasPrefix [] (p # ps) = False"
| "HasPrefix (c # cs) (p # ps) = (c = p \<and> HasPrefix cs ps)"

fun Index :: "string \<Rightarrow> string \<Rightarrow> int" where
  "Index [] substr = (if substr = [] then 0 else - 1)"
| "Index (c # cs) substr =
     (if HasPrefix (c # cs) substr then 0
      else (let r = Index cs substr in if r < 0 then - 1 else r + 1))"

text \<open>
  The slice expression \<open>s[lo:hi]\<close>.  Go panics unless
  \<open>lo \<le> hi \<le> len(s)\<close>; every slice expression of \<open>TruncateStop\<close>
  is within these bounds (\<open>idx\<close> is an index into \<open>sequence\<close>, and the
  loop slices only while \<open>pos < len(truncated)\<close>, up to a minimum with
  \<open>len(truncated)\<close>).
\<close>

definition slice :: "string \<Rightarrow> nat \<Rightarrow> nat \<Rightarrow> string" where
  "slice s lo hi = take (hi - lo) (drop lo s)"

subsection \<open>TruncateStop\<close>

text \<open>
  \<open>llm.CompletionResponse\<close> is declared in another package.  The function reads
  and writes its \<open>Content\<close> only; the remaining fields are the component
  \<open>Other\<close>, whose Go zero value is \<open>0\<close>: the composite literal
  \<open>llm.CompletionResponse{Content: chunk}\<close> leaves them at zero.
  A nil slice and an empty slice are both the empty list.
\<close>

record 'o CompletionResponse =
  Content :: string
  Other :: 'o

text \<open>
  The second loop of \<open>TruncateStop\<close>, over the remaining responses, with the
  loop variables \<open>pos\<close>, \<open>truncationHappened\<close> and \<open>result\<close>.
\<close>

fun truncate_loop ::
  "string \<Rightarrow> ('o::zero) CompletionResponse list \<Rightarrow> nat \<Rightarrow> bool \<Rightarrow>
   'o CompletionResponse list \<Rightarrow> 'o CompletionResponse list \<times> bool" where
  "truncate_loop truncated [] pos truncationHappened result = (result, truncationHappened)"
| "truncate_loop truncated (resp # rest) pos truncationHappened result =
     (if pos \<ge> length truncated then (result, truncationHappened)
      else
        (let chunk = slice truncated pos (min (pos + length (Content resp)) (length truncated));
             truncationHappened' =
               (if length chunk < length (Content resp) then True else truncationHappened);
             result' =
               (if length chunk > 0 then result @ [\<lparr>Content = chunk, Other = 0\<rparr>] else result)
         in truncate_loop truncated rest (pos + length (Content resp)) truncationHappened' result'))"

definition TruncateStop ::
  "('o::zero) CompletionResponse list \<Rightarrow> string \<Rightarrow> 'o CompletionResponse list \<times> bool" where
  "TruncateStop resps stop =
     (let sequence = foldl (\<lambda>s resp. s @ Content resp) [] resps;
          idx = Index sequence stop
      in if idx < 0 then (resps, False)
         else
           (let truncated = slice sequence 0 (nat idx)
            in if length truncated = 0 then ([], True)
               else truncate_loop truncated resps 0 False []))"

subsection \<open>IncompleteUnicode\<close>

text \<open>
  The loop \<open>for i := 1; i < 5 && i <= len(token); i++\<close> with the variable
  \<open>incomplete\<close>; \<open>continue\<close> is the recursive call, \<open>break\<close> returns.
  The index \<open>len(token)-i\<close> is in range because \<open>1 \<le> i \<le> len(token)\<close>.
\<close>

function IncompleteUnicode_loop :: "string \<Rightarrow> nat \<Rightarrow> bool \<Rightarrow> bool" where
  "IncompleteUnicode_loop token i incomplete =
     (if i < 5 \<and> i \<le> length token then
        (let c = (of_char (token ! (length token - i)) :: 8 word) in
         if c AND 0xc0 = 0x80 then IncompleteUnicode_loop token (i + 1) incomplete
         else if c AND 0xe0 = 0xc0 then i < 2
         else if c AND 0xf0 = 0xe0 then i < 3
         else if c AND 0xf8 = 0xf0 then i < 4
         else incomplete)
      else incomplete)"
  by pat_completeness auto
termination
  by (relation "measure (\<lambda>(token, i, incomplete). 5 - i)") auto

definition IncompleteUnicode :: "string \<Rightarrow> bool" where
  "IncompleteUnicode token = IncompleteUnicode_loop token 1 False"


section \<open>The decoder (package llama)\<close>

subsection \<open>Machine types, panics and errors\<close>

text \<open>
  Go's \<open>int\<close> is the 64-bit word (arithmetic wraps), \<open>uint32\<close> and
  \<open>int32\<close> are 32-bit words.  A \<open>float32\<close> of the configuration is only
  stored and handed to the tensor library, never computed with: it is its bit pattern.
  The one \<open>float64\<close> computation of the file, the attention scale, is kept as
  the expression the code evaluates.  Loop indices and lengths, which stay far below
  \<open>2 ^ 63\<close>, are integers.
\<close>

type_synonym int64 = "64 word"
type_synonym uint32 = "32 word"
type_synonym int32 = "32 word"
type_synonym float32 = "32 word"

datatype float64 =
    Float64_lit int
  | Float64_of_int int64
  | Sqrt float64
  | Quo float64 float64

datatype panic = DivideByZero | IndexOutOfRange | NilDereference | InvalidPattern

datatype error = Error string

text \<open>A panic aborts the call; \<open>and_then\<close> runs the rest only when there is none.\<close>

definition and_then :: "panic + 'a \<Rightarrow> ('a \<Rightarrow> panic + 'b) \<Rightarrow> panic + 'b" where
  "and_then x f = (case x of Inl p \<Rightarrow> Inl p | Inr a \<Rightarrow> f a)"

text \<open>A pointer is \<open>None\<close> when nil; using a field or method through it panics.\<close>

definition deref :: "'a option \<Rightarrow> panic + 'a" where
  "deref p = (case p of None \<Rightarrow> Inl NilDereference | Some a \<Rightarrow> Inr a)"

text \<open>
  Integer division \<open>a / b\<close> on \<open>int\<close>: a run-time panic when the divisor is
  zero, otherwise the quotient truncated towards zero (and wrapped to 64 bits).
\<close>

definition int_quo :: "int64 \<Rightarrow> int64 \<Rightarrow> panic + int64" where
  "int_quo a b = (if b = 0 then Inl DivideByZero else Inr (word_of_int (sint a sdiv sint b)))"

subsection \<open>The tensor library as the graph of its calls\<close>

text \<open>
  Packages \<open>ml\<close> and \<open>ml/nn\<close> are external to the decoder: a tensor is an
  opaque handle, and every operation returns a new tensor.  A tensor is therefore
  the term of the operations that produced it, each constructor one call with its
  arguments in the order the call passes them.  \<open>RoPE\<close> has, after the
  position tensor and the optional frequency factors (nil is \<open>None\<close>), two
  \<open>uint32\<close> and two \<open>float32\<close> arguments.  An \<open>nn.Linear\<close>,
  \<open>nn.RMSNorm\<close> or \<open>nn.Embedding\<close> is the handle of its loaded weights.
\<close>

datatype Linear = Linear nat
datatype RMSNorm = RMSNorm nat
datatype Embedding = Embedding nat

datatype tensor =
    Handle nat
  | Embedding_Forward Embedding tensor
  | Linear_Forward Linear tensor
  | RMSNorm_Forward RMSNorm tensor float32
  | Reshape tensor "int64 list"
  | RoPE tensor tensor "tensor option" uint32 uint32 float32 float32
  | SILU tensor
  | Mul tensor tensor
  | Add tensor tensor
  | Rows tensor tensor
  | Attend tensor "(tensor \<times> tensor) list" float64

text \<open>
  What the decoder asks of the library besides graph nodes: the size of a dimension
  of a tensor, and the conversion of an integer slice into a tensor on the input and
  on the output buffer, which may fail with an error.
\<close>

record Backend =
  Dim :: "tensor \<Rightarrow> int \<Rightarrow> int64"
  Input_FromIntSlice :: "int32 list \<Rightarrow> int \<Rightarrow> error + tensor"
  Output_FromIntSlice :: "int32 list \<Rightarrow> int \<Rightarrow> error + tensor"

subsection \<open>Options, weights and the model\<close>

record Options =
  hiddenSize :: int64
  numHeads :: int64
  numKVHeads :: int64
  headDim :: int64
  eps :: float32
  ropeBase :: float32
  ropeScale :: float32
  ropeDim :: uint32

record SelfAttention =
  Query :: "Linear option"
  Key :: "Linear option"
  Value :: "Linear option"
  Output :: "Linear option"
  RopeFactors :: "tensor option"

record MLP =
  Up :: "Linear option"
  Down :: "Linear option"
  Gate :: "Linear option"

record Layer =
  AttentionNorm :: "RMSNorm option"
  SelfAttention :: "SelfAttention option"
  MLPNorm :: "RMSNorm option"
  MLP :: "MLP option"

record Vocabulary =
  Values :: "string list"
  Types :: "uint32 list"
  Merges :: "string list"
  BOS :: int32
  AddBOS :: bool
  EOS :: int32
  AddEOS :: bool

text \<open>
  \<open>model.BytePairEncoding\<close> is declared in package \<open>model\<close>, which is not
  among the sources, and the decoder never looks inside it: a value of it is an opaque
  handle.  Its constructor is a parameter of \<open>New\<close> (see there).
\<close>

datatype BytePairEncoding = BPE_Handle nat

text \<open>
  The fields that \<open>Model\<close> declares itself.  \<open>Options\<close> is a pointer that
  \<open>New\<close> always sets; the other pointers are nil until the loader fills them.
\<close>

record Weights =
  BytePairEncoding :: BytePairEncoding
  TokenEmbedding :: "Embedding option"
  Layers :: "Layer list"
  OutputNorm :: "RMSNorm option"
  Output :: "Linear option"
  Options :: Options

subsection \<open>The causal cache (package kvcache)\<close>

text \<open>
  Modelled from the spec: package \<open>kvcache\<close> is not among the sources.  After the
  spec (3 and 4.1) the cache maps a layer to the sequence of keys and values appended
  so far, is created empty, has an active layer chosen by \<open>SetLayer\<close>, and keeps
  the shift callback it was created with.  The callback is the method value
  \<open>m.Shift\<close>, bound to the pointer \<open>m\<close>: it reads the model as it is when
  the cache calls it, so the receiver is its first argument.
\<close>

record Causal =
  shiftFn :: "Weights \<Rightarrow> int \<Rightarrow> tensor \<Rightarrow> tensor \<Rightarrow> panic + (error + tensor)"
  curLayer :: int
  entries :: "int \<Rightarrow> (tensor \<times> tensor) list"

text \<open>
  Modelled from the spec: \<open>kvcache.NewCausalCache\<close> is missing; the cache is
  created empty (3) and keeps the callback.
\<close>

definition NewCausalCache ::
  "(Weights \<Rightarrow> int \<Rightarrow> tensor \<Rightarrow> tensor \<Rightarrow> panic + (error + tensor)) \<Rightarrow> Causal" where
  "NewCausalCache shift = \<lparr>shiftFn = shift, curLayer = 0, entries = (\<lambda>layer. [])\<rparr>"

text \<open>
  Modelled from the spec: \<open>SetLayer\<close> is missing; it selects the layer that the
  following append and read calls target (4.1, setActiveLayer).
\<close>

definition SetLayer :: "Causal \<Rightarrow> int \<Rightarrow> Causal" where
  "SetLayer cache layer = cache\<lparr>curLayer := layer\<rparr>"

text \<open>
  Modelled from the spec: the cache's append is missing; it appends the new key and
  value to the sequence of the active layer (4.1, append).
\<close>

definition cache_append :: "Causal \<Rightarrow> tensor \<Rightarrow> tensor \<Rightarrow> Causal" where
  "cache_append cache key val =
     cache\<lparr>entries := (entries cache)(curLayer cache := entries cache (curLayer cache) @ [(key, val)])\<rparr>"

text \<open>
  Modelled from the spec: the cache's attention is missing; it is causal attention of
  the query over the whole stored sequence of the active layer, with the given scale
  (4.1, attend), kept as a node of the graph.
\<close>

definition cache_attend :: "Causal \<Rightarrow> tensor \<Rightarrow> float64 \<Rightarrow> tensor" where
  "cache_attend cache query scale = Attend query (entries cache (curLayer cache)) scale"

text \<open>
  Modelled from the spec: \<open>nn.Attention\<close> is not among the sources.  After the spec
  (4.2, steps 4 and 5) it appends the key and the value to the cache for the active
  layer, then attends with the query over everything stored.
\<close>

definition Attention ::
  "tensor \<Rightarrow> tensor \<Rightarrow> tensor \<Rightarrow> float64 \<Rightarrow> Causal \<Rightarrow> tensor \<times> Causal" where
  "Attention query key val scale cache =
     (let cache' = cache_append cache key val
      in (cache_attend cache' query scale, cache'))"

text \<open>The model: its own fields and the cache of the embedded \<open>model.Base\<close>.\<close>

record Model = Weights +
  Cache :: "Causal option"

subsection \<open>The configuration\<close>

text \<open>
  \<open>ml.Config\<close> is an interface: a value of it is its methods.  Each takes the key
  and the optional default values of the variadic parameter.
\<close>

record Config =
  String :: "string \<Rightarrow> string list \<Rightarrow> string"
  Uint :: "string \<Rightarrow> uint32 list \<Rightarrow> uint32"
  Float :: "string \<Rightarrow> float32 list \<Rightarrow> float32"
  Bool :: "string \<Rightarrow> bool list \<Rightarrow> bool"
  Strings :: "string \<Rightarrow> string list list \<Rightarrow> string list"
  Uints :: "string \<Rightarrow> uint32 list list \<Rightarrow> uint32 list"

text \<open>
  \<open>strings.EqualFold\<close> of the Go library, on its ASCII path: bytes are equal, or
  one is an upper-case letter and the other the same letter in lower case
  (\<open>fold_step\<close>, the body of its loop: continue or return false); at the
  end both strings must be exhausted.  When a byte of either string is not ASCII the
  library compares by Unicode case folding.  \<open>New\<close> compares with \<open>gpt2\<close>
  only, whose characters fold to ASCII characters and nothing else, so that a string
  with a byte outside ASCII is never equal to it: that path is \<open>False\<close>.
\<close>

definition fold_step :: "8 word \<Rightarrow> 8 word \<Rightarrow> bool" where
  "fold_step sr tr =
     (if (sr OR tr) \<ge> 0x80 then False
      else if tr = sr then True
      else
        (let lo = (if tr < sr then tr else sr); hi = (if tr < sr then sr else tr)
         in 0x41 \<le> lo \<and> lo \<le> 0x5A \<and> hi = lo + 0x61 - 0x41))"

fun EqualFold :: "string \<Rightarrow> string \<Rightarrow> bool" where
  "EqualFold [] [] = True"
| "EqualFold [] (t # ts) = False"
| "EqualFold (s # ss) [] = False"
| "EqualFold (s # ss) (t # ts) =
     (if fold_step (of_char s) (of_char t) then EqualFold ss ts else False)"

text \<open>The default pretokenizer pattern of \<open>New\<close>, a raw string literal.\<close>

definition default_pretokenizer :: string where
  "default_pretokenizer = concat
   [''[^'', [CHR 0x5C], ''r'', [CHR 0x5C], ''n'', [CHR 0x5C], ''p{L}'', [CHR 0x5C],
    ''p{N}]?['', [CHR 0x5C], ''p{Lu}'', [CHR 0x5C], ''p{Lt}'', [CHR 0x5C], ''p{Lm}'',
    [CHR 0x5C], ''p{Lo}'', [CHR 0x5C], ''p{M}]*['', [CHR 0x5C], ''p{Ll}'', [CHR 0x5C],
    ''p{Lm}'', [CHR 0x5C], ''p{Lo}'', [CHR 0x5C], ''p{M}]+|[^'', [CHR 0x5C], ''r'',
    [CHR 0x5C], ''n'', [CHR 0x5C], ''p{L}'', [CHR 0x5C], ''p{N}]?['', [CHR 0x5C],
    ''p{Lu}'', [CHR 0x5C], ''p{Lt}'', [CHR 0x5C], ''p{Lm}'', [CHR 0x5C], ''p{Lo}'',
    [CHR 0x5C], ''p{M}]+['', [CHR 0x5C], ''p{Ll}'', [CHR 0x5C], ''p{Lm}'', [CHR 0x5C],
    ''p{Lo}'', [CHR 0x5C], ''p{M}]*|'', [CHR 0x5C], ''p{N}| ?[^'', [CHR 0x5C], ''s'',
    [CHR 0x5C], ''p{L}'', [CHR 0x5C], ''p{N}]+['', [CHR 0x5C], ''r'', [CHR 0x5C],
    ''n/]*|'', [CHR 0x5C], ''s*['', [CHR 0x5C], ''r'', [CHR 0x5C], ''n]+|'', [CHR 0x5C],
    ''s+(?!'', [CHR 0x5C], ''S)|'', [CHR 0x5C], ''s+'']"

text \<open>The float32 constant 1, the default of \<open>rope.freq_scale\<close>.\<close>

definition float32_one :: float32 where
  "float32_one = 0x3F800000"

text \<open>The zero value of \<open>Layer\<close>, the elements of \<open>make([]Layer, n)\<close>.\<close>

definition zero_Layer :: Layer where
  "zero_Layer = \<lparr>AttentionNorm = None, SelfAttention = None, MLPNorm = None, MLP = None\<rparr>"

subsection \<open>Shift\<close>

text \<open>
  \<open>m.Layers[layer]\<close> panics when the index is out of range, and
  \<open>.SelfAttention.RopeFactors\<close> when the pointer is nil.  The arguments of
  \<open>RoPE\<close> are in the order of the call.
\<close>

definition Shift ::
  "'a Weights_scheme \<Rightarrow> int \<Rightarrow> tensor \<Rightarrow> tensor \<Rightarrow> panic + (error + tensor)" where
  "Shift m layer key shift =
     (if layer < 0 \<or> int (length (Layers m)) \<le> layer then Inl IndexOutOfRange
      else and_then (deref (Layer.SelfAttention (Layers m ! nat layer))) (\<lambda>sa.
        Inr (Inr (RoPE key shift (RopeFactors sa) 0 (ropeDim (Options m))
                    (ropeBase (Options m)) (ropeScale (Options m))))))"

subsection \<open>New\<close>

text \<open>
  The composite literal \<open>&model.Vocabulary{...}\<close> of \<open>New\<close>.
  \<open>int32(c.Uint(k))\<close> keeps the 32 bits.
\<close>

definition config_Vocabulary :: "Config \<Rightarrow> Vocabulary" where
  "config_Vocabulary c = \<lparr>
     Values = Strings c ''tokenizer.ggml.tokens'' [],
     Types = Uints c ''tokenizer.ggml.token_type'' [],
     Merges = Strings c ''tokenizer.ggml.merges'' [],
     BOS = Uint c ''tokenizer.ggml.bos_token_id'' [],
     AddBOS = Bool c ''tokenizer.ggml.add_bos_token'' [True],
     EOS = Uint c ''tokenizer.ggml.eos_token_id'' [],
     AddEOS = Bool c ''tokenizer.ggml.add_eos_token'' [False]\<rparr>"

text \<open>
  The constructor.  \<open>model.NewBytePairEncoding\<close> is not among the sources and the
  spec leaves tokenization out, so it is the parameter \<open>newBytePairEncoding\<close>:
  given the pretokenizer pattern and the vocabulary it returns the encoding, or
  panics (it compiles the pattern, and an invalid pattern is a panic).  It is called
  while the composite literal of the model is built, after the check of the
  tokenizer name and before anything else; a panic there ends \<open>New\<close> with
  neither a model nor an error.  The result is a panic, or the returned pair of Go:
  an error or the model.  The lines printed to standard output are not part of the
  result and are left out.  \<open>int(c.Uint(k))\<close> widens an unsigned 32-bit value.
\<close>

definition New ::
  "(string \<Rightarrow> Vocabulary \<Rightarrow> panic + BytePairEncoding) \<Rightarrow> Config \<Rightarrow> panic + (error + Model)" where
  "New newBytePairEncoding c =
     (if \<not> EqualFold (String c ''tokenizer.ggml.model'' []) ''gpt2'' then
        Inr (Inl (Error (''tokenizer '' @ String c ''tokenizer.ggml.model'' [] @ '' not yet supported'')))
      else
        and_then
          (newBytePairEncoding
             (String c ''tokenizer.ggml.pretokenizer'' [default_pretokenizer])
             (config_Vocabulary c))
          (\<lambda>bpe.
            let m = \<lparr>
              BytePairEncoding = bpe,
              TokenEmbedding = None,
              Layers = replicate (unat (Uint c ''block_count'' [])) zero_Layer,
              OutputNorm = None,
              Output = None,
              Options = \<lparr>
                hiddenSize = ucast (Uint c ''embedding_length'' []),
                numHeads = ucast (Uint c ''attention.head_count'' []),
                numKVHeads = ucast (Uint c ''attention.head_count_kv'' []),
                headDim = ucast (Uint c ''attention.key_length'' []),
                eps = Float c ''attention.layer_norm_rms_epsilon'' [],
                ropeBase = Float c ''rope.freq_base'' [],
                ropeScale = Float c ''rope.freq_scale'' [float32_one],
                ropeDim = Uint c ''rope.dimension_count'' []\<rparr>,
              Cache = None\<rparr>
            in Inr (Inr (m\<lparr>Cache := Some (NewCausalCache Shift)\<rparr>))))"

subsection \<open>SelfAttention.Forward\<close>

text \<open>The head dimension: the explicit value if there is one, otherwise computed.\<close>

definition head_dim :: "Options \<Rightarrow> panic + int64" where
  "head_dim opts =
     (if headDim opts = 0 then int_quo (hiddenSize opts) (numHeads opts)
      else Inr (headDim opts))"

definition SelfAttention_Forward ::
  "Backend \<Rightarrow> SelfAttention option \<Rightarrow> tensor \<Rightarrow> tensor \<Rightarrow> Causal \<Rightarrow> Options \<Rightarrow>
   panic + (tensor \<times> Causal)" where
  "SelfAttention_Forward be sa hiddenState positionIDs cache opts =
     (let batchSize = Dim be hiddenState 1;
          ropeType = (0 :: uint32)
      in and_then (head_dim opts) (\<lambda>headDim.
         and_then (deref sa) (\<lambda>sa.
         and_then (deref (Query sa)) (\<lambda>query.
           let q = Linear_Forward query hiddenState;
               q = Reshape q [headDim, numHeads opts, batchSize];
               q = RoPE q positionIDs (RopeFactors sa) (ropeDim opts) ropeType
                     (ropeBase opts) (ropeScale opts)
           in and_then (deref (Key sa)) (\<lambda>key.
           let k = Linear_Forward key hiddenState;
               k = Reshape k [headDim, numKVHeads opts, batchSize];
               k = RoPE k positionIDs (RopeFactors sa) (ropeDim opts) ropeType
                     (ropeBase opts) (ropeScale opts)
           in and_then (deref (Value sa)) (\<lambda>val.
           let v = Linear_Forward val hiddenState;
               v = Reshape v [headDim, numKVHeads opts, batchSize];
               scaleFactor = Quo (Float64_lit 1) (Sqrt (Float64_of_int headDim));
               (kqv, cache') = Attention q k v scaleFactor cache;
               outputDim = headDim * numHeads opts;
               kqv = Reshape kqv [outputDim, batchSize]
           in and_then (deref (SelfAttention.Output sa)) (\<lambda>output.
              Inr (Linear_Forward output kqv, cache'))))))))"

subsection \<open>MLP.Forward\<close>

definition MLP_Forward :: "MLP option \<Rightarrow> tensor \<Rightarrow> Options \<Rightarrow> panic + tensor" where
  "MLP_Forward mlp hiddenState opts =
     and_then (deref mlp) (\<lambda>mlp.
     and_then (deref (Gate mlp)) (\<lambda>gate.
     and_then (deref (Up mlp)) (\<lambda>up.
       let hiddenState = Mul (SILU (Linear_Forward gate hiddenState)) (Linear_Forward up hiddenState)
       in and_then (deref (Down mlp)) (\<lambda>down.
          Inr (Linear_Forward down hiddenState)))))"

subsection \<open>Layer.Forward\<close>

definition Layer_Forward ::
  "Backend \<Rightarrow> Layer \<Rightarrow> tensor \<Rightarrow> tensor \<Rightarrow> tensor option \<Rightarrow> Causal \<Rightarrow> Options \<Rightarrow>
   panic + (tensor \<times> Causal)" where
  "Layer_Forward be l hiddenState positionIDs outputs cache opts =
     (let residual = hiddenState
      in and_then (deref (AttentionNorm l)) (\<lambda>attentionNorm.
         let hiddenState = RMSNorm_Forward attentionNorm hiddenState (eps opts)
         in and_then (SelfAttention_Forward be (Layer.SelfAttention l) hiddenState positionIDs cache opts)
              (\<lambda>(hiddenState, cache').
         let (hiddenState, residual) =
               (case outputs of
                  Some outs \<Rightarrow> (Rows hiddenState outs, Rows residual outs)
                | None \<Rightarrow> (hiddenState, residual));
             hiddenState = Add hiddenState residual;
             residual = hiddenState
         in and_then (deref (MLPNorm l)) (\<lambda>mlpNorm.
            let hiddenState = RMSNorm_Forward mlpNorm hiddenState (eps opts)
            in and_then (MLP_Forward (Layer.MLP l) hiddenState opts) (\<lambda>hiddenState.
               Inr (Add hiddenState residual, cache'))))))"

subsection \<open>Model.Forward\<close>

text \<open>The slices of \<open>input.Options\<close> that \<open>Forward\<close> reads.\<close>

record input_Options =
  Inputs :: "int32 list"
  Positions :: "int32 list"
  Outputs :: "int32 list"

text \<open>
  The loop \<open>for i, layer := range m.Layers\<close>: \<open>n\<close> is \<open>len(m.Layers)\<close>,
  \<open>i\<close> the index of the first of the remaining layers.  \<open>m.Cache.SetLayer\<close>
  panics on a nil cache.
\<close>

fun layers_loop ::
  "Backend \<Rightarrow> Options \<Rightarrow> tensor \<Rightarrow> tensor \<Rightarrow> int \<Rightarrow> int \<Rightarrow> Layer list \<Rightarrow> tensor \<Rightarrow> Causal option \<Rightarrow>
   panic + (tensor \<times> Causal option)" where
  "layers_loop be opts positions outputs n i [] hiddenState cache = Inr (hiddenState, cache)"
| "layers_loop be opts positions outputs n i (layer # rest) hiddenState cache =
     and_then (deref cache) (\<lambda>c.
       let c = SetLayer c i;
           lastLayerOutputs = (if i = n - 1 then Some outputs else None)
       in and_then (Layer_Forward be layer hiddenState positions lastLayerOutputs c opts)
            (\<lambda>(hiddenState, c). layers_loop be opts positions outputs n (i + 1) rest hiddenState (Some c)))"

text \<open>
  The result is a panic, or the returned pair of Go (an error or the logits) together
  with the model after the call, of which only the cache can have changed.
\<close>

definition Model_Forward ::
  "Backend \<Rightarrow> Model \<Rightarrow> input_Options \<Rightarrow> panic + ((error + tensor) \<times> Model)" where
  "Model_Forward be m opts =
     (case Input_FromIntSlice be (Inputs opts) (int (length (Inputs opts))) of
        Inl err \<Rightarrow> Inr (Inl err, m)
      | Inr inputs \<Rightarrow>
     (case Input_FromIntSlice be (Positions opts) (int (length (Positions opts))) of
        Inl err \<Rightarrow> Inr (Inl err, m)
      | Inr positions \<Rightarrow>
     (case Output_FromIntSlice be (Outputs opts) (int (length (Outputs opts))) of
        Inl err \<Rightarrow> Inr (Inl err, m)
      | Inr outputs \<Rightarrow>
        and_then (deref (TokenEmbedding m)) (\<lambda>tokenEmbedding.
          let hiddenState = Embedding_Forward tokenEmbedding inputs
          in and_then (layers_loop be (Options m) positions outputs (int (length (Layers m))) 0
                         (Layers m) hiddenState (Cache m))
               (\<lambda>(hiddenState, cache).
          and_then (deref (OutputNorm m)) (\<lambda>outputNorm.
            let hiddenState = RMSNorm_Forward outputNorm hiddenState (eps (Options m))
            in and_then (deref (Weights.Output m)) (\<lambda>output.
               Inr (Inr (Linear_Forward output hiddenState), m\<lparr>Cache := cache\<rparr>))))))))"


section \<open>Specification-level notions\<close>

subsection \<open>Pieces kept whole and pieces cut\<close>

text \<open>
  The returned pieces are whole source pieces, the empty ones left out
  (\<open>kept_whole\<close>), or such pieces followed by one that is a non-empty proper
  prefix of the next source piece (\<open>cut_mid_piece\<close>).
\<close>

definition kept_whole :: "'o CompletionResponse list \<Rightarrow> 'o CompletionResponse list \<Rightarrow> bool" where
  "kept_whole resps res \<longleftrightarrow>
     (\<exists>k\<le>length resps. map Content res = filter (\<lambda>s. s \<noteq> []) (map Content (take k resps)))"

definition cut_mid_piece :: "'o CompletionResponse list \<Rightarrow> 'o CompletionResponse list \<Rightarrow> bool" where
  "cut_mid_piece resps res \<longleftrightarrow>
     (\<exists>k<length resps. \<exists>c. c \<noteq> [] \<and> strict_prefix c (Content (resps ! k)) \<and>
        map Content res = filter (\<lambda>s. s \<noteq> []) (map Content (take k resps)) @ [c])"

subsection \<open>UTF-8 byte classes\<close>

text \<open>
  A continuation byte is \<open>10xxxxxx\<close>, that is \<open>0x80\<close> to \<open>0xBF\<close>.
  \<open>utf8_length c\<close> is the length of the sequence that the byte \<open>c\<close> begins:
  1 for \<open>0xxxxxxx\<close>, 2 for \<open>110xxxxx\<close>, 3 for \<open>1110xxxx\<close>, 4 for
  \<open>11110xxx\<close>, and 0 for a byte that begins none.
\<close>

definition continuation_byte :: "char \<Rightarrow> bool" where
  "continuation_byte c \<longleftrightarrow> 0x80 \<le> (of_char c :: nat) \<and> (of_char c :: nat) < 0xC0"

definition utf8_length :: "char \<Rightarrow> nat" where
  "utf8_length c =
     (let n = (of_char c :: nat) in
      if n < 0x80 then 1
      else if 0xC0 \<le> n \<and> n < 0xE0 then 2
      else if 0xE0 \<le> n \<and> n < 0xF0 then 3
      else if 0xF0 \<le> n \<and> n < 0xF8 then 4
      else 0)"

subsection \<open>The supported tokenizer\<close>

text \<open>
  The tokenizer names that \<open>New\<close> is to accept: \<open>gpt2\<close> in any
  combination of upper and lower case.
\<close>

definition supported_tokenizer :: "string \<Rightarrow> bool" where
  "supported_tokenizer s \<longleftrightarrow>
     s \<in> set [''gpt2'', ''gpT2'', ''gPt2'', ''gPT2'', ''Gpt2'', ''GpT2'', ''GPt2'', ''GPT2'']"

subsection \<open>The attention block of the spec\<close>

text \<open>
  The seven steps of the spec's self-attention block (4.2), for loaded weights and
  a head dimension \<open>hdim\<close>: project; reshape with \<open>numHeads\<close> for the query and
  \<open>numKVHeads\<close> for key and value; rotate query and key with type flag 0; append
  key and value to the cache; attend with scale \<open>1/sqrt(hdim)\<close>; reshape to
  \<open>hdim * numHeads\<close> rows; project through the output weight.
\<close>

definition attention_steps ::
  "Backend \<Rightarrow> Linear \<Rightarrow> Linear \<Rightarrow> Linear \<Rightarrow> Linear \<Rightarrow> tensor option \<Rightarrow> Options \<Rightarrow> int64 \<Rightarrow>
   tensor \<Rightarrow> tensor \<Rightarrow> Causal \<Rightarrow> tensor \<times> Causal" where
  "attention_steps be wq wk wv wo factors opts hdim x positions cache =
     (let batch = Dim be x 1;
          q1 = Linear_Forward wq x;
          k1 = Linear_Forward wk x;
          v1 = Linear_Forward wv x;
          q2 = Reshape q1 [hdim, numHeads opts, batch];
          k2 = Reshape k1 [hdim, numKVHeads opts, batch];
          v2 = Reshape v1 [hdim, numKVHeads opts, batch];
          q3 = RoPE q2 positions factors (ropeDim opts) 0 (ropeBase opts) (ropeScale opts);
          k3 = RoPE k2 positions factors (ropeDim opts) 0 (ropeBase opts) (ropeScale opts);
          cache' = cache_append cache k3 v2;
          a = cache_attend cache' q3 (Quo (Float64_lit 1) (Sqrt (Float64_of_int hdim)));
          r = Reshape a [hdim * numHeads opts, batch]
      in (Linear_Forward wo r, cache'))"

subsection \<open>Layers that do not prune\<close>

text \<open>
  Running layers in index order from index \<open>i\<close>, each with the cache set to its
  index and with no output indices: what the spec asks for every layer but the last.
\<close>

fun run_unpruned ::
  "Backend \<Rightarrow> Options \<Rightarrow> tensor \<Rightarrow> int \<Rightarrow> Layer list \<Rightarrow> tensor \<Rightarrow> Causal option \<Rightarrow>
   panic + (tensor \<times> Causal option)" where
  "run_unpruned be opts positions i [] h cache = Inr (h, cache)"
| "run_unpruned be opts positions i (l # ls) h cache =
     and_then (deref cache) (\<lambda>c.
     and_then (Layer_Forward be l h positions None (SetLayer c i) opts) (\<lambda>(h', c').
       run_unpruned be opts positions (i + 1) ls h' (Some c')))"

section \<open>Example values\<close>

text \<open>
  The configuration of the spec's scenario (hidden size 8, two heads, one key/value
  head, head dimension 4, rotary dimension 4), loaded layers with distinct weight
  handles, a library whose conversions fail on an empty slice, a constructor of the
  encoding that panics on the pattern of a single opening parenthesis, and a
  configuration with a given tokenizer name and head counts.
\<close>

definition example_Options :: Options where
  "example_Options = \<lparr>hiddenSize = 8, numHeads = 2, numKVHeads = 1, headDim = 4,
     eps = 0x3727C5AC, ropeBase = 0x461C4000, ropeScale = float32_one, ropeDim = 4\<rparr>"

definition example_SelfAttention :: SelfAttention where
  "example_SelfAttention = \<lparr>Query = Some (Linear 1), Key = Some (Linear 2),
     Value = Some (Linear 3), Output = Some (Linear 4), RopeFactors = None\<rparr>"

definition example_MLP :: MLP where
  "example_MLP = \<lparr>Up = Some (Linear 6), Down = Some (Linear 7), Gate = Some (Linear 8)\<rparr>"

definition example_Layer :: Layer where
  "example_Layer = \<lparr>AttentionNorm = Some (RMSNorm 0),
     SelfAttention = Some example_SelfAttention,
     MLPNorm = Some (RMSNorm 5),
     MLP = Some example_MLP\<rparr>"

definition example_last_Layer :: Layer where
  "example_last_Layer = \<lparr>AttentionNorm = Some (RMSNorm 10),
     SelfAttention = Some \<lparr>Query = Some (Linear 11), Key = Some (Linear 12),
       Value = Some (Linear 13), Output = Some (Linear 14), RopeFactors = None\<rparr>,
     MLPNorm = Some (RMSNorm 15),
     MLP = Some \<lparr>Up = Some (Linear 16), Down = Some (Linear 17), Gate = Some (Linear 18)\<rparr>\<rparr>"

definition example_Model :: Model where
  "example_Model = \<lparr>
     BytePairEncoding = BPE_Handle 0,
     TokenEmbedding = Some (Embedding 100),
     Layers = [example_Layer, example_last_Layer],
     OutputNorm = Some (RMSNorm 101),
     Output = Some (Linear 102),
     Options = example_Options,
     Cache = Some (NewCausalCache Shift)\<rparr>"

definition example_Backend :: Backend where
  "example_Backend = \<lparr>
     Dim = (\<lambda>t d. 3),
     Input_FromIntSlice =
       (\<lambda>s n. if s = [] then Inl (Error ''empty input'') else Inr (Handle (unat (hd s)))),
     Output_FromIntSlice =
       (\<lambda>s n. if s = [] then Inl (Error ''empty output'') else Inr (Handle (1000 + unat (hd s))))\<rparr>"

definition example_input :: input_Options where
  "example_input = \<lparr>Inputs = [5, 6, 7], Positions = [0, 1, 2], Outputs = [2]\<rparr>"

definition example_NewBytePairEncoding :: "string \<Rightarrow> Vocabulary \<Rightarrow> panic + BytePairEncoding" where
  "example_NewBytePairEncoding pattern vocab =
     (if pattern = ''('' then Inl InvalidPattern else Inr (BPE_Handle (length (Values vocab))))"

definition example_Config :: "string \<Rightarrow> uint32 \<Rightarrow> uint32 \<Rightarrow> Config" where
  "example_Config tokenizer heads kvheads = \<lparr>
     String = (\<lambda>key defaults.
       if key = ''tokenizer.ggml.model'' then tokenizer
       else (case defaults of [] \<Rightarrow> [] | d # ds \<Rightarrow> d)),
     Uint = (\<lambda>key defaults.
       if key = ''attention.head_count'' then heads
       else if key = ''attention.head_count_kv'' then kvheads
       else if key = ''block_count'' then 1
       else if key = ''embedding_length'' then 8
       else (case defaults of [] \<Rightarrow> 0 | d # ds \<Rightarrow> d)),
     Float = (\<lambda>key defaults. case defaults of [] \<Rightarrow> 0 | d # ds \<Rightarrow> d),
     Bool = (\<lambda>key defaults. case defaults of [] \<Rightarrow> False | d # ds \<Rightarrow> d),
     Strings = (\<lambda>key defaults. case defaults of [] \<Rightarrow> [] | d # ds \<Rightarrow> d),
     Uints = (\<lambda>key defaults. case defaults of [] \<Rightarrow> [] | d # ds \<Rightarrow> d)\<rparr>"

definition example_bad_pattern_Config :: Config where
  "example_bad_pattern_Config = (example_Config ''gpt2'' 2 1)\<lparr>
     String := (\<lambda>key defaults.
       if key = ''tokenizer.ggml.pretokenizer'' then ''(''
       else String (example_Config ''gpt2'' 2 1) key defaults)\<rparr>"

section \<open>Properties of the stop-sequence functions\<close>

subsection \<open>Index and the first occurrence\<close>

lemma sequence_concat:
  "foldl (\<lambda>s resp. s @ Content resp) acc resps = acc @ concat (map Content resps)"
  by (induction resps arbitrary: acc) simp_all

lemma HasPrefix_iff: "HasPrefix s p \<longleftrightarrow> prefix p s"
  by (induction s p rule: HasPrefix.induct) auto

lemma Index_ge: "- 1 \<le> Index s sub"
  by (induction s) (simp_all add: Let_def)

lemma Index_least:
  "s = pre @ sub @ post \<Longrightarrow> 0 \<le> Index s sub \<and> Index s sub \<le> int (length pre)"
proof (induction s arbitrary: pre)
  case Nil
  then show ?case by simp
next
  case (Cons c cs)
  show ?case
  proof (cases "HasPrefix (c # cs) sub")
    case True
    then show ?thesis by simp
  next
    case False
    then have "pre \<noteq> []"
      using Cons.prems by (auto simp: HasPrefix_iff)
    then obtain pre' where pre: "pre = c # pre'" and cs: "cs = pre' @ sub @ post"
      using Cons.prems by (cases pre) auto
    from Cons.IH [OF cs] show ?thesis
      using False pre by (simp add: Let_def)
  qed
qed

lemma Index_occurs:
  "0 \<le> Index s sub \<Longrightarrow> \<exists>post. s = take (nat (Index s sub)) s @ sub @ post"
proof (induction s)
  case Nil
  then show ?case by (simp split: if_splits)
next
  case (Cons c cs)
  show ?case
  proof (cases "HasPrefix (c # cs) sub")
    case True
    then show ?thesis by (auto simp: HasPrefix_iff prefix_def)
  next
    case False
    with Cons.prems have nn: "0 \<le> Index cs sub"
      by (simp add: Let_def split: if_splits)
    then obtain post where "cs = take (nat (Index cs sub)) cs @ sub @ post"
      using Cons.IH by blast
    moreover have "nat (Index (c # cs) sub) = Suc (nat (Index cs sub))"
      using False nn by (simp add: Let_def nat_add_distrib)
    ultimately show ?thesis by (metis append_Cons take_Suc_Cons)
  qed
qed

lemma Index_absent:
  "Index s sub < 0 \<longleftrightarrow> \<not> (\<exists>pre post. s = pre @ sub @ post)"
  using Index_least [of s _ sub] Index_occurs [of s sub]
  by (metis linorder_not_less)

lemma Index_first:
  assumes "s = pre @ sub @ post"
    and "\<forall>pre' post'. s = pre' @ sub @ post' \<longrightarrow> length pre \<le> length pre'"
  shows "Index s sub = int (length pre)" "take (nat (Index s sub)) s = pre"
proof -
  from Index_least [OF assms(1)] have b: "0 \<le> Index s sub" "Index s sub \<le> int (length pre)"
    by simp_all
  from Index_occurs [OF b(1)] obtain post'
    where "s = take (nat (Index s sub)) s @ sub @ post'" by blast
  with assms(2) have "length pre \<le> length (take (nat (Index s sub)) s)" by blast
  then have "length pre \<le> nat (Index s sub)" by simp
  with b show "Index s sub = int (length pre)" by linarith
  then show "take (nat (Index s sub)) s = pre" using assms(1) by simp
qed

lemma truncate_loop_done:
  "length truncated \<le> pos \<Longrightarrow> truncate_loop truncated rs pos th result = (result, th)"
  by (cases rs) simp_all


lemma truncate_loop_spec:
  assumes "pos \<le> length truncated"
    and "prefix (drop pos truncated) (concat (map Content rs))"
  shows "\<exists>new f k. truncate_loop truncated rs pos th result = (result @ new, th \<or> f) \<and>
           concat (map Content new) = drop pos truncated \<and>
           (\<forall>r\<in>set new. Other r = 0) \<and> k \<le> length rs \<and>
           (if f then k < length rs \<and>
               (\<exists>c. c \<noteq> [] \<and> strict_prefix c (Content (rs ! k)) \<and>
                  map Content new = filter (\<lambda>s. s \<noteq> []) (map Content (take k rs)) @ [c])
            else map Content new = filter (\<lambda>s. s \<noteq> []) (map Content (take k rs)))"
  using assms
proof (induction rs arbitrary: pos th result)
  case Nil
  then have "drop pos truncated = []" by simp
  then have "truncate_loop truncated [] pos th result = (result @ [], th \<or> False) \<and>
      concat (map Content ([] :: 'a CompletionResponse list)) = drop pos truncated"
    by simp
  then show ?case by fastforce
next
  case (Cons r rest)
  let ?C = "Content r"
  let ?L = "length truncated"
  show ?case
  proof (cases "?L \<le> pos")
    case True
    then have "truncate_loop truncated (r # rest) pos th result = (result @ [], th \<or> False) \<and>
      concat (map Content ([] :: 'a CompletionResponse list)) = drop pos truncated"
      by simp
    then show ?thesis by fastforce
  next
    case False
    then have lt: "pos < ?L" by simp
    from Cons.prems(2) obtain tl where tl: "?C @ concat (map Content rest) = drop pos truncated @ tl"
      by (auto simp: prefix_def)
    show ?thesis
    proof (cases "pos + length ?C \<le> ?L")
      case True
      have chunk: "slice truncated pos (min (pos + length ?C) ?L) = ?C"
      proof -
        have "take (length ?C) (drop pos truncated) = take (length ?C) (?C @ concat (map Content rest))"
          using tl True by simp
        then show ?thesis using True by (simp add: slice_def min_def)
      qed
      have dropC: "drop pos truncated = ?C @ drop (pos + length ?C) truncated"
      proof -
        have "drop pos truncated = take (length ?C) (drop pos truncated) @ drop (length ?C) (drop pos truncated)"
          by (rule append_take_drop_id [symmetric])
        also have "take (length ?C) (drop pos truncated) = ?C"
          using chunk True by (simp add: slice_def min_def)
        finally show ?thesis by (simp add: add.commute)
      qed
      have pre': "prefix (drop (pos + length ?C) truncated) (concat (map Content rest))"
        using tl dropC by (metis append.assoc prefixI same_append_eq)
      let ?result' = "if ?C \<noteq> [] then result @ [\<lparr>Content = ?C, Other = 0\<rparr>] else result"
      from Cons.IH [OF True pre', of th ?result'] obtain new f k where
        run: "truncate_loop truncated rest (pos + length ?C) th ?result' = (?result' @ new, th \<or> f)"
        and cat: "concat (map Content new) = drop (pos + length ?C) truncated"
        and oth: "\<forall>r\<in>set new. Other r = 0"
        and k: "k \<le> length rest"
        and shape: "if f then k < length rest \<and>
               (\<exists>c. c \<noteq> [] \<and> strict_prefix c (Content (rest ! k)) \<and>
                  map Content new = filter (\<lambda>s. s \<noteq> []) (map Content (take k rest)) @ [c])
            else map Content new = filter (\<lambda>s. s \<noteq> []) (map Content (take k rest))"
        by blast
      let ?new = "(if ?C \<noteq> [] then [\<lparr>Content = ?C, Other = (0::'a)\<rparr>] else []) @ new"
      have step: "truncate_loop truncated (r # rest) pos th result =
          truncate_loop truncated rest (pos + length ?C) th ?result'"
        using lt chunk by (simp add: Let_def)
      have 1: "truncate_loop truncated (r # rest) pos th result = (result @ ?new, th \<or> f)"
        using step run by simp
      have 2: "concat (map Content ?new) = drop pos truncated"
        using cat dropC by simp
      have 3: "\<forall>r\<in>set ?new. Other r = 0"
        using oth by auto
      have 4: "Suc k \<le> length (r # rest)" using k by simp
      have 5: "if f then Suc k < length (r # rest) \<and>
               (\<exists>c. c \<noteq> [] \<and> strict_prefix c (Content ((r # rest) ! Suc k)) \<and>
                  map Content ?new = filter (\<lambda>s. s \<noteq> []) (map Content (take (Suc k) (r # rest))) @ [c])
            else map Content ?new = filter (\<lambda>s. s \<noteq> []) (map Content (take (Suc k) (r # rest)))"
        using shape by (cases f) auto
      from 1 2 3 4 5 show ?thesis by blast
    next
      case False
      then have gt: "?L < pos + length ?C" by simp
      let ?chunk = "drop pos truncated"
      have chunk: "slice truncated pos (min (pos + length ?C) ?L) = ?chunk"
        using gt lt by (simp add: slice_def min_def)
      have ne: "?chunk \<noteq> []" using lt by simp
      have short: "length ?chunk < length ?C" using gt lt by simp
      have "prefix ?chunk ?C"
      proof -
        have "?chunk = take (length ?chunk) (?C @ concat (map Content rest))"
          using tl by (metis append_eq_conv_conj)
        also have "\<dots> = take (length ?chunk) ?C"
          using short by simp
        finally show ?thesis by (metis take_is_prefix)
      qed
      moreover have "?chunk \<noteq> ?C"
        using short by (metis less_irrefl)
      ultimately have sp: "strict_prefix ?chunk ?C"
        by (simp add: strict_prefix_def)
      let ?new = "[\<lparr>Content = ?chunk, Other = (0::'a)\<rparr>]"
      have "truncate_loop truncated (r # rest) pos th result =
          truncate_loop truncated rest (pos + length ?C) True (result @ ?new)"
        using lt chunk short ne by (simp add: Let_def)
      also have "\<dots> = (result @ ?new, True)"
        using gt by (intro truncate_loop_done) simp
      finally have 1: "truncate_loop truncated (r # rest) pos th result = (result @ ?new, th \<or> True)"
        by simp
      have 2: "concat (map Content ?new) = drop pos truncated" by simp
      have 3: "\<forall>r\<in>set ?new. Other r = 0" by simp
      have 5: "if True then (0::nat) < length (r # rest) \<and>
               (\<exists>c. c \<noteq> [] \<and> strict_prefix c (Content ((r # rest) ! 0)) \<and>
                  map Content ?new = filter (\<lambda>s. s \<noteq> []) (map Content (take 0 (r # rest))) @ [c])
            else map Content ?new = filter (\<lambda>s. s \<noteq> []) (map Content (take 0 (r # rest)))"
        using ne sp by simp
      from 1 2 3 5 show ?thesis by blast
    qed
  qed
qed


lemma concat_filter_nonempty: "concat (filter (\<lambda>s. s \<noteq> []) xs) = concat xs"
  by (induction xs) simp_all

lemma length_concat_take_le: "length (concat (take k xs)) \<le> length (concat xs)"
proof -
  have "concat xs = concat (take k xs) @ concat (drop k xs)"
    by (metis append_take_drop_id concat_append)
  then show ?thesis by simp
qed

lemma length_concat_take_mono:
  assumes "k \<le> m"
  shows "length (concat (take k xs)) \<le> length (concat (take m xs))"
proof -
  have "take k xs = take k (take m xs)"
    using assms by (simp add: min_def)
  then show ?thesis
    using length_concat_take_le [of k "take m xs"] by simp
qed

lemma whole_and_cut_exclusive:
  assumes whole: "ys = filter (\<lambda>s. s \<noteq> []) (take k xs)"
    and cut: "ys = filter (\<lambda>s. s \<noteq> []) (take k' xs) @ [c]"
    and k': "k' < length xs" and c: "c \<noteq> []" "strict_prefix c (xs ! k')"
  shows False
proof -
  have "concat (take k xs) = concat (take k' xs) @ c"
    using whole cut by (metis concat_filter_nonempty concat_append concat.simps append_Nil2)
  then have eq: "length (concat (take k xs)) = length (concat (take k' xs)) + length c"
    by simp
  have lc: "length c < length (xs ! k')"
    using c(2) by (metis prefix_length_less)
  have suc: "length (concat (take (Suc k') xs)) = length (concat (take k' xs)) + length (xs ! k')"
    using k' by (simp add: take_Suc_conv_app_nth)
  show False
  proof (cases "k \<le> k'")
    case True
    from length_concat_take_mono [OF True, of xs] eq c(1) show False by simp
  next
    case False
    then have "Suc k' \<le> k" by simp
    from length_concat_take_mono [OF this, of xs] eq suc lc show False by simp
  qed
qed

subsection \<open>Bytes and the backwards scan\<close>

declare IncompleteUnicode_loop.simps [simp del]

lemma mask_table:
  "\<forall>n\<in>{..<256::nat}.
     (((word_of_nat n :: 8 word) AND 0xc0 = 0x80) = (0x80 \<le> n \<and> n < 0xC0)) \<and>
     (((word_of_nat n :: 8 word) AND 0xe0 = 0xc0) = (0xC0 \<le> n \<and> n < 0xE0)) \<and>
     (((word_of_nat n :: 8 word) AND 0xf0 = 0xe0) = (0xE0 \<le> n \<and> n < 0xF0)) \<and>
     (((word_of_nat n :: 8 word) AND 0xf8 = 0xf0) = (0xF0 \<le> n \<and> n < 0xF8))"
  by code_simp

lemma of_char_word: "(of_char c :: 8 word) = word_of_nat (of_char c)"
  by (simp add: of_nat_of_char)

lemma byte_masks:
  "((of_char c :: 8 word) AND 0xc0 = 0x80) = continuation_byte c"
  "((of_char c :: 8 word) AND 0xe0 = 0xc0) = (0xC0 \<le> (of_char c :: nat) \<and> (of_char c :: nat) < 0xE0)"
  "((of_char c :: 8 word) AND 0xf0 = 0xe0) = (0xE0 \<le> (of_char c :: nat) \<and> (of_char c :: nat) < 0xF0)"
  "((of_char c :: 8 word) AND 0xf8 = 0xf0) = (0xF0 \<le> (of_char c :: nat) \<and> (of_char c :: nat) < 0xF8)"
proof -
  have "(of_char c :: nat) \<in> {..<256}" by simp
  then show
    "((of_char c :: 8 word) AND 0xc0 = 0x80) = continuation_byte c"
    "((of_char c :: 8 word) AND 0xe0 = 0xc0) = (0xC0 \<le> (of_char c :: nat) \<and> (of_char c :: nat) < 0xE0)"
    "((of_char c :: 8 word) AND 0xf0 = 0xe0) = (0xE0 \<le> (of_char c :: nat) \<and> (of_char c :: nat) < 0xF0)"
    "((of_char c :: 8 word) AND 0xf8 = 0xf0) = (0xF0 \<le> (of_char c :: nat) \<and> (of_char c :: nat) < 0xF8)"
    unfolding of_char_word continuation_byte_def using mask_table by blast+
qed

lemma loop_step:
  "IncompleteUnicode_loop token i incomplete =
     (if i < 5 \<and> i \<le> length token then
        (let c = token ! (length token - i) in
         if continuation_byte c then IncompleteUnicode_loop token (i + 1) incomplete
         else if utf8_length c = 2 then i < 2
         else if utf8_length c = 3 then i < 3
         else if utf8_length c = 4 then i < 4
         else incomplete)
      else incomplete)"
  by (subst IncompleteUnicode_loop.simps)
     (auto simp: Let_def byte_masks utf8_length_def continuation_byte_def)

lemma loop_stops_at_lead:
  assumes "token = pre @ c # conts" "list_all continuation_byte conts"
    "\<not> continuation_byte c" "1 \<le> i" "i \<le> length conts + 1" "length conts < 4"
  shows "IncompleteUnicode_loop token i incomplete =
     (if utf8_length c = 2 then length conts + 1 < 2
      else if utf8_length c = 3 then length conts + 1 < 3
      else if utf8_length c = 4 then length conts + 1 < 4
      else incomplete)"
  using assms(4,5)
proof (induction "length conts + 1 - i" arbitrary: i)
  case 0
  then have i: "i = length conts + 1" by simp
  have "length token - i = length pre"
    using assms(1) i by simp
  then have "token ! (length token - i) = c"
    using assms(1) by simp
  then show ?case
    using assms(3,6) i by (subst loop_step) (simp add: assms(1))
next
  case (Suc d)
  then have i: "i \<le> length conts" "1 \<le> i" by simp_all
  have "length token - i = length (pre @ [c]) + (length conts - i)"
    using assms(1) i by simp
  moreover have "token = (pre @ [c]) @ conts"
    using assms(1) by simp
  ultimately have idx: "token ! (length token - i) = conts ! (length conts - i)"
    by (metis nth_append_length_plus)
  have "continuation_byte (conts ! (length conts - i))"
    using assms(2) i by (simp add: list_all_length)
  with idx have "IncompleteUnicode_loop token i incomplete =
      IncompleteUnicode_loop token (i + 1) incomplete"
    using i assms(6) by (subst loop_step) (simp add: assms(1))
  also have "\<dots> = (if utf8_length c = 2 then length conts + 1 < 2
      else if utf8_length c = 3 then length conts + 1 < 3
      else if utf8_length c = 4 then length conts + 1 < 4
      else incomplete)"
    using Suc i by (intro Suc.hyps(1)) simp_all
  finally show ?case .
qed

lemma loop_all_continuation:
  assumes "\<forall>j. i \<le> j \<and> j < 5 \<and> j \<le> length token \<longrightarrow>
             continuation_byte (token ! (length token - j))"
  shows "IncompleteUnicode_loop token i incomplete = incomplete"
  using assms
proof (induction "5 - i" arbitrary: i)
  case 0
  then have "\<not> (i < 5 \<and> i \<le> length token)" by simp
  then show ?case by (subst loop_step) (rule if_not_P)
next
  case (Suc d)
  show ?case
  proof (cases "i < 5 \<and> i \<le> length token")
    case True
    then have "continuation_byte (token ! (length token - i))"
      using Suc.prems by simp
    then have "IncompleteUnicode_loop token i incomplete =
        IncompleteUnicode_loop token (i + 1) incomplete"
      using True by (subst loop_step) simp
    also have "\<dots> = incomplete"
      using Suc by (intro Suc.hyps(1)) simp_all
    finally show ?thesis .
  next
    case False
    show ?thesis by (subst loop_step) (rule if_not_P [OF False])
  qed
qed

lemma continuation_no_lead: "continuation_byte c \<Longrightarrow> utf8_length c = 0"
  by (simp add: continuation_byte_def utf8_length_def)

lemma utf8_length_le: "utf8_length c \<le> 4"
  by (simp add: utf8_length_def Let_def)

lemma incomplete_if:
  assumes "token = pre @ c # conts" "list_all continuation_byte conts"
    "length conts + 1 < utf8_length c"
  shows "IncompleteUnicode token"
proof -
  have nc: "\<not> continuation_byte c"
    using assms(3) continuation_no_lead by fastforce
  have len: "length conts < 4"
    using assms(3) utf8_length_le [of c] by simp
  show ?thesis
    unfolding IncompleteUnicode_def
    using loop_stops_at_lead [OF assms(1,2) nc _ _ len, of 1 False] assms(3) utf8_length_le [of c]
    by (simp split: if_splits)
qed

lemma complete_if:
  assumes "token = pre @ c # conts" "list_all continuation_byte conts"
    "length conts + 1 = utf8_length c"
  shows "\<not> IncompleteUnicode token"
proof -
  have nc: "\<not> continuation_byte c"
    using assms(3) continuation_no_lead by fastforce
  have len: "length conts < 4"
    using assms(3) utf8_length_le [of c] by simp
  show ?thesis
    unfolding IncompleteUnicode_def
    using loop_stops_at_lead [OF assms(1,2) nc _ _ len, of 1 False] assms(3)
    by (simp split: if_splits)
qed

lemma incomplete_only_if:
  assumes "IncompleteUnicode token"
  shows "\<exists>pre c conts. token = pre @ c # conts \<and> list_all continuation_byte conts \<and>
           length conts + 1 < utf8_length c"
proof -
  define conts where "conts = rev (takeWhile continuation_byte (rev token))"
  define front where "front = rev (dropWhile continuation_byte (rev token))"
  have tok: "token = front @ conts"
    unfolding conts_def front_def
    by (metis rev_append rev_rev_ident takeWhile_dropWhile_id)
  have allc: "list_all continuation_byte conts"
    unfolding conts_def by (simp add: list_all_iff) (meson set_takeWhileD)
  have tail: "continuation_byte (token ! (length token - j))"
    if "1 \<le> j" "j \<le> length conts" for j
  proof -
    have "length token - j = length front + (length conts - j)"
      using that tok by simp
    then have "token ! (length token - j) = conts ! (length conts - j)"
      using tok by (metis nth_append_length_plus)
    then show ?thesis
      using that allc by (simp add: list_all_length)
  qed
  show ?thesis
  proof (cases "front = [] \<or> 4 \<le> length conts")
    case True
    have "\<forall>j. 1 \<le> j \<and> j < 5 \<and> j \<le> length token \<longrightarrow>
            continuation_byte (token ! (length token - j))"
      using True tail tok by auto
    then have "IncompleteUnicode_loop token 1 False = False"
      by (rule loop_all_continuation)
    with assms show ?thesis by (simp add: IncompleteUnicode_def)
  next
    case False
    then obtain pre c where front: "front = pre @ [c]"
      by (metis rev_exhaust)
    have nc: "\<not> continuation_byte c"
    proof -
      have "dropWhile continuation_byte (rev token) = c # rev pre"
        using front unfolding front_def by (metis rev.simps(2) rev_rev_ident rev_append rev_singleton_conv append_Nil rev_swap)
      then show ?thesis
        by (metis hd_dropWhile list.distinct(1) list.sel(1))
    qed
    have len: "length conts < 4" using False by simp
    have tok': "token = pre @ c # conts" using tok front by simp
    have "IncompleteUnicode_loop token 1 False"
      using assms by (simp add: IncompleteUnicode_def)
    then have "length conts + 1 < utf8_length c"
      using loop_stops_at_lead [OF tok' allc nc _ _ len, of 1 False]
      by (simp split: if_splits)
    with tok' allc show ?thesis by blast
  qed
qed

lemma last_four_bytes:
  "IncompleteUnicode token = IncompleteUnicode (drop (length token - 4) token)"
proof
  assume "IncompleteUnicode token"
  then obtain pre c conts where d: "token = pre @ c # conts" "list_all continuation_byte conts"
    "length conts + 1 < utf8_length c"
    using incomplete_only_if by blast
  have "length conts + 1 < 4"
    using d(3) utf8_length_le [of c] by simp
  then have "length token - 4 \<le> length pre"
    using d(1) by simp
  then have "drop (length token - 4) token = drop (length token - 4) pre @ c # conts"
    using d(1) by simp
  then show "IncompleteUnicode (drop (length token - 4) token)"
    using d(2,3) by (rule incomplete_if)
next
  assume "IncompleteUnicode (drop (length token - 4) token)"
  then obtain pre c conts where d: "drop (length token - 4) token = pre @ c # conts"
    "list_all continuation_byte conts" "length conts + 1 < utf8_length c"
    using incomplete_only_if by blast
  have "token = take (length token - 4) token @ drop (length token - 4) token"
    by simp
  then have "token = (take (length token - 4) token @ pre) @ c # conts"
    using d(1) by simp
  then show "IncompleteUnicode token"
    using d(2,3) by (rule incomplete_if)
qed

subsection \<open>The claims about the stop-sequence functions\<close>

text \<open>
  C9, as amended.  If the stop string does not occur in the concatenated contents,
  \<open>TruncateStop\<close> returns its input and \<open>False\<close>.  If it occurs, let
  \<open>pre\<close> be the text before its first occurrence: when \<open>pre\<close> is empty the
  result is the empty list and \<open>True\<close>; otherwise the returned contents
  concatenate to \<open>pre\<close>, the fields other than the content are zero, the returned
  pieces are source pieces kept whole except that the last may be cut, and the
  boolean is true exactly when a returned piece was cut.
\<close>

theorem TruncateStop_spec:
  fixes resps :: "('o::zero) CompletionResponse list"
  shows
  "(\<not> (\<exists>pre post. concat (map Content resps) = pre @ stop @ post) \<longrightarrow>
      TruncateStop resps stop = (resps, False)) \<and>
   (\<forall>pre post.
      concat (map Content resps) = pre @ stop @ post \<and>
      (\<forall>pre' post'. concat (map Content resps) = pre' @ stop @ post' \<longrightarrow>
          length pre \<le> length pre') \<longrightarrow>
      (pre = [] \<longrightarrow> TruncateStop resps stop = ([], True)) \<and>
      (pre \<noteq> [] \<longrightarrow>
         (\<exists>res flag. TruncateStop resps stop = (res, flag) \<and>
            concat (map Content res) = pre \<and>
            (\<forall>r\<in>set res. Other r = 0) \<and>
            (kept_whole resps res \<or> cut_mid_piece resps res) \<and>
            (flag \<longleftrightarrow> cut_mid_piece resps res))))"
proof (intro conjI impI allI)
  assume "\<not> (\<exists>pre post. concat (map Content resps) = pre @ stop @ post)"
  then have "Index (concat (map Content resps)) stop < 0"
    by (simp add: Index_absent)
  then show "TruncateStop resps stop = (resps, False)"
    by (simp add: TruncateStop_def sequence_concat)
next
  fix pre post
  assume a: "concat (map Content resps) = pre @ stop @ post \<and>
      (\<forall>pre' post'. concat (map Content resps) = pre' @ stop @ post' \<longrightarrow>
          length pre \<le> length pre')"
  then have idx: "Index (concat (map Content resps)) stop = int (length pre)"
    and tr: "take (nat (Index (concat (map Content resps)) stop)) (concat (map Content resps)) = pre"
    using Index_first [of "concat (map Content resps)" pre stop post] by blast+
  have unfold: "TruncateStop resps stop =
      (if length pre = 0 then ([], True) else truncate_loop pre resps 0 False [])"
    using idx tr by (simp add: TruncateStop_def sequence_concat slice_def Let_def)
  {
    assume "pre = []"
    then show "TruncateStop resps stop = ([], True)"
      using unfold by simp
  }
  {
    assume ne: "pre \<noteq> []"
    have "prefix (drop 0 pre) (concat (map Content resps))"
      using a by simp
    from truncate_loop_spec [OF _ this, of False "[]"] obtain new f k where
      run: "truncate_loop pre resps 0 False [] = (new, f)"
      and cat: "concat (map Content new) = pre"
      and oth: "\<forall>r\<in>set new. Other r = 0"
      and k: "k \<le> length resps"
      and shape: "if f then k < length resps \<and>
               (\<exists>c. c \<noteq> [] \<and> strict_prefix c (Content (resps ! k)) \<and>
                  map Content new = filter (\<lambda>s. s \<noteq> []) (map Content (take k resps)) @ [c])
            else map Content new = filter (\<lambda>s. s \<noteq> []) (map Content (take k resps))"
      by auto
    have res: "TruncateStop resps stop = (new, f)"
      using unfold ne run by simp
    have alt: "kept_whole resps new \<or> cut_mid_piece resps new"
      using shape k unfolding kept_whole_def cut_mid_piece_def by (cases f) auto
    have iff: "f \<longleftrightarrow> cut_mid_piece resps new"
    proof
      assume f
      then show "cut_mid_piece resps new"
        using shape unfolding cut_mid_piece_def by auto
    next
      assume cm: "cut_mid_piece resps new"
      show f
      proof (rule ccontr)
        assume "\<not> f"
        then have w: "map Content new = filter (\<lambda>s. s \<noteq> []) (take k (map Content resps))"
          using shape by (simp add: take_map)
        from cm obtain k' c where "k' < length resps" "c \<noteq> []"
          "strict_prefix c (Content (resps ! k'))"
          "map Content new = filter (\<lambda>s. s \<noteq> []) (take k' (map Content resps)) @ [c]"
          unfolding cut_mid_piece_def by (auto simp: take_map)
        then show False
          using whole_and_cut_exclusive [OF w, of k' c] by simp
      qed
    qed
    from res cat oth alt iff
    show "\<exists>res flag. TruncateStop resps stop = (res, flag) \<and>
            concat (map Content res) = pre \<and>
            (\<forall>r\<in>set res. Other r = 0) \<and>
            (kept_whole resps res \<or> cut_mid_piece resps res) \<and>
            (flag \<longleftrightarrow> cut_mid_piece resps res)"
      by blast
  }
qed

theorem TruncateStop_spec_witness:
  "snd (TruncateStop [\<lparr>Content = ''Hello'', Other = 0::nat\<rparr>, \<lparr>Content = '' wor'', Other = 0\<rparr>] ''or'') \<and>
   concat (map Content (fst (TruncateStop
      [\<lparr>Content = ''Hello'', Other = 0::nat\<rparr>, \<lparr>Content = '' wor'', Other = 0\<rparr>] ''or''))) = ''Hello w'' \<and>
   TruncateStop [\<lparr>Content = ''world'', Other = 0::nat\<rparr>] ''world'' = ([], True) \<and>
   TruncateStop [\<lparr>Content = ''world'', Other = 0::nat\<rparr>] ''x'' =
     ([\<lparr>Content = ''world'', Other = 0\<rparr>], False)"
proof -
  let ?R = "[\<lparr>Content = ''Hello'', Other = 0::nat\<rparr>, \<lparr>Content = '' wor'', Other = 0\<rparr>]"
  let ?W = "[\<lparr>Content = ''world'', Other = 0::nat\<rparr>]"
  have occ: "concat (map Content ?R) = ''Hello w'' @ ''or'' @ []" by simp
  have first: "\<forall>pre' post'. concat (map Content ?R) = pre' @ ''or'' @ post' \<longrightarrow>
      length ''Hello w'' \<le> length pre'"
  proof (intro allI impI)
    fix pre' post'
    assume "concat (map Content ?R) = pre' @ ''or'' @ post'"
    from Index_least [OF this]
    have "Index (concat (map Content ?R)) ''or'' \<le> int (length pre')" by simp
    moreover have "Index (concat (map Content ?R)) ''or'' = 7" by simp
    ultimately show "length ''Hello w'' \<le> length pre'" by simp
  qed
  have "\<exists>res flag. TruncateStop ?R ''or'' = (res, flag) \<and>
      concat (map Content res) = ''Hello w'' \<and> (\<forall>r\<in>set res. Other r = 0) \<and>
      (kept_whole ?R res \<or> cut_mid_piece ?R res) \<and> (flag \<longleftrightarrow> cut_mid_piece ?R res)"
    using TruncateStop_spec [of ?R "''or''", THEN conjunct2, rule_format, of "''Hello w''" "[]"]
      occ first by blast
  moreover have "snd (TruncateStop ?R ''or'')"
    by (simp add: TruncateStop_def slice_def)
  ultimately have 1: "snd (TruncateStop ?R ''or'') \<and>
      concat (map Content (fst (TruncateStop ?R ''or''))) = ''Hello w''"
    by auto
  have occ2: "concat (map Content ?W) = [] @ ''world'' @ []" by simp
  have 2: "TruncateStop ?W ''world'' = ([], True)"
    using TruncateStop_spec [of ?W "''world''", THEN conjunct2, rule_format, of "[]" "[]"] occ2
    by simp
  have "Index (concat (map Content ?W)) ''x'' < 0" by simp
  then have "\<not> (\<exists>pre post. concat (map Content ?W) = pre @ ''x'' @ post)"
    by (rule Index_absent [THEN iffD1])
  then have 3: "TruncateStop ?W ''x'' = (?W, False)"
    using TruncateStop_spec [of ?W "''x''", THEN conjunct1] by blast
  from 1 2 3 show ?thesis by simp
qed

text \<open>
  C9 as stated fails: the whole text is the stop string, nothing is returned, no
  returned piece was cut, and the boolean is true.
\<close>

theorem TruncateStop_empty_prefix_counterexample:
  "TruncateStop [\<lparr>Content = ''world'', Other = 0::nat\<rparr>] ''world'' = ([], True)"
  by (simp add: TruncateStop_def slice_def)

text \<open>
  C10.  \<open>IncompleteUnicode\<close> is true exactly when the string ends with the
  leading byte of a 2-, 3- or 4-byte sequence followed by fewer continuation bytes
  than the sequence needs, and false when it ends with a complete character: a
  leading byte followed by exactly the continuation bytes it needs (none for ASCII).
  The result depends on the last four bytes only.
\<close>

theorem IncompleteUnicode_spec:
  "(IncompleteUnicode token \<longleftrightarrow>
      (\<exists>pre c conts. token = pre @ c # conts \<and> list_all continuation_byte conts \<and>
          length conts + 1 < utf8_length c)) \<and>
   (\<forall>pre c conts. token = pre @ c # conts \<and> list_all continuation_byte conts \<and>
          length conts + 1 = utf8_length c \<longrightarrow> \<not> IncompleteUnicode token) \<and>
   IncompleteUnicode token = IncompleteUnicode (drop (length token - 4) token)"
  using incomplete_if incomplete_only_if complete_if last_four_bytes [of token] by blast

theorem IncompleteUnicode_spec_witness:
  "IncompleteUnicode [CHR ''h'', CHR ''i'', CHR 0xE0, CHR 0xA0] \<and>
   \<not> IncompleteUnicode [CHR ''h'', CHR ''i'', CHR 0xE0, CHR 0xA0, CHR 0x80]"
proof -
  have a: "\<exists>pre c conts. [CHR ''h'', CHR ''i'', CHR 0xE0, CHR 0xA0] = pre @ c # conts \<and>
      list_all continuation_byte conts \<and> length conts + 1 < utf8_length c"
    by (rule exI [of _ "''hi''"], rule exI [of _ "CHR 0xE0"], rule exI [of _ "[CHR 0xA0]"])
       (simp add: continuation_byte_def utf8_length_def)
  have b: "[CHR ''h'', CHR ''i'', CHR 0xE0, CHR 0xA0, CHR 0x80] = ''hi'' @ CHR 0xE0 # [CHR 0xA0, CHR 0x80] \<and>
      list_all continuation_byte [CHR 0xA0, CHR 0x80] \<and>
      length [CHR 0xA0, CHR 0x80] + 1 = utf8_length (CHR 0xE0)"
    by (simp add: continuation_byte_def utf8_length_def)
  from a have 1: "IncompleteUnicode [CHR ''h'', CHR ''i'', CHR 0xE0, CHR 0xA0]"
    using IncompleteUnicode_spec [of "[CHR ''h'', CHR ''i'', CHR 0xE0, CHR 0xA0]", THEN conjunct1]
    by (rule iffD2 [rotated])
  from b have 2: "\<not> IncompleteUnicode [CHR ''h'', CHR ''i'', CHR 0xE0, CHR 0xA0, CHR 0x80]"
    using IncompleteUnicode_spec [of "[CHR ''h'', CHR ''i'', CHR 0xE0, CHR 0xA0, CHR 0x80]",
        THEN conjunct2, THEN conjunct1, rule_format, of "''hi''" "CHR 0xE0" "[CHR 0xA0, CHR 0x80]"]
    by blast
  from 1 2 show ?thesis by simp
qed

section \<open>Properties of the decoder\<close>

subsection \<open>Panics, pointers and the shape of the calls\<close>

lemma and_then_Inr [simp]: "and_then (Inr a) f = f a"
  by (simp add: and_then_def)

lemma and_then_Inl [simp]: "and_then (Inl p) f = Inl p"
  by (simp add: and_then_def)

lemma and_then_assoc:
  "and_then (and_then x f) g = and_then x (\<lambda>a. and_then (f a) g)"
  by (cases x) simp_all

lemma deref_Some [simp]: "deref (Some a) = Inr a"
  by (simp add: deref_def)

lemma deref_None [simp]: "deref None = Inl NilDereference"
  by (simp add: deref_def)

lemma SelfAttention_Forward_steps:
  assumes "head_dim opts = Inr hdim"
  shows "SelfAttention_Forward be
           (Some \<lparr>Query = Some wq, Key = Some wk, Value = Some wv, Output = Some wo,
                  RopeFactors = factors\<rparr>) x positions cache opts =
         Inr (attention_steps be wq wk wv wo factors opts hdim x positions cache)"
  using assms
  by (simp add: SelfAttention_Forward_def attention_steps_def Attention_def Let_def)

lemma layers_loop_last:
  "layers_loop be opts pos outs (i + int (length init) + 1) i (init @ [l]) h c =
     and_then (run_unpruned be opts pos i init h c) (\<lambda>(h', c').
     and_then (deref c') (\<lambda>c0.
     and_then (Layer_Forward be l h' pos (Some outs) (SetLayer c0 (i + int (length init))) opts)
       (\<lambda>(h'', c''). Inr (h'', Some c''))))"
proof (induction init arbitrary: i h c)
  case Nil
  show ?case
    by (cases c) (simp_all add: Let_def split: sum.splits prod.splits)
next
  case (Cons a as)
  have n: "i + int (length (a # as)) + 1 = (i + 1) + int (length as) + 1" by simp
  have last: "i \<noteq> i + int (length (a # as)) + 1 - 1" by simp
  show ?case
  proof (cases c)
    case None
    then show ?thesis by simp
  next
    case (Some c0)
    show ?thesis
    proof (cases "Layer_Forward be a h pos None (SetLayer c0 i) opts")
      case (Inl p)
      then show ?thesis
        using Some last by (simp add: Let_def)
    next
      case (Inr r)
      obtain h1 c1 where r: "r = (h1, c1)" by (cases r)
      have "layers_loop be opts pos outs (i + int (length (a # as)) + 1) i ((a # as) @ [l]) h c =
          layers_loop be opts pos outs ((i + 1) + int (length as) + 1) (i + 1) (as @ [l]) h1 (Some c1)"
        using Some Inr r last by (simp add: Let_def add.assoc)
      also have "\<dots> = and_then (run_unpruned be opts pos (i + 1) as h1 (Some c1)) (\<lambda>(h', c').
          and_then (deref c') (\<lambda>c0.
          and_then (Layer_Forward be l h' pos (Some outs) (SetLayer c0 ((i + 1) + int (length as))) opts)
            (\<lambda>(h'', c''). Inr (h'', Some c''))))"
        by (rule Cons.IH)
      also have "\<dots> = and_then (run_unpruned be opts pos i (a # as) h c) (\<lambda>(h', c').
          and_then (deref c') (\<lambda>c0.
          and_then (Layer_Forward be l h' pos (Some outs) (SetLayer c0 (i + int (length (a # as)))) opts)
            (\<lambda>(h'', c''). Inr (h'', Some c''))))"
        using Some Inr r by (simp add: ac_simps)
      finally show ?thesis .
    qed
  qed
qed

lemma Layer_Forward_pruned:
  assumes "AttentionNorm l = Some an"
    and "SelfAttention_Forward be (Layer.SelfAttention l) (RMSNorm_Forward an h (eps opts)) pos c opts = Inr (a, c')"
    and "MLPNorm l = Some mn"
    and "MLP_Forward (Layer.MLP l) (RMSNorm_Forward mn (Add (Rows a outs) (Rows h outs)) (eps opts)) opts = Inr f"
  shows "Layer_Forward be l h pos (Some outs) c opts =
           Inr (Add f (Add (Rows a outs) (Rows h outs)), c')"
  using assms by (simp add: Layer_Forward_def)

lemma Layer_Forward_unpruned:
  assumes "AttentionNorm l = Some an"
    and "SelfAttention_Forward be (Layer.SelfAttention l) (RMSNorm_Forward an h (eps opts)) pos c opts = Inr (a, c')"
    and "MLPNorm l = Some mn"
    and "MLP_Forward (Layer.MLP l) (RMSNorm_Forward mn (Add a h) (eps opts)) opts = Inr f"
  shows "Layer_Forward be l h pos None c opts = Inr (Add f (Add a h), c')"
  using assms by (simp add: Layer_Forward_def)

lemma fold_step_table:
  "\<forall>n\<in>{..<256::nat}.
     (fold_step (word_of_nat n) 0x67 = (n = 0x67 \<or> n = 0x47)) \<and>
     (fold_step (word_of_nat n) 0x70 = (n = 0x70 \<or> n = 0x50)) \<and>
     (fold_step (word_of_nat n) 0x74 = (n = 0x74 \<or> n = 0x54)) \<and>
     (fold_step (word_of_nat n) 0x32 = (n = 0x32))"
  by code_simp

lemma of_char_eq_iff_nat: "(of_char c :: nat) = of_char d \<longleftrightarrow> c = d"
  by (metis char_of_char)

lemma fold_step_gpt2:
  "fold_step (of_char a) (of_char (CHR ''g'')) = (a = CHR ''g'' \<or> a = CHR ''G'')"
  "fold_step (of_char a) (of_char (CHR ''p'')) = (a = CHR ''p'' \<or> a = CHR ''P'')"
  "fold_step (of_char a) (of_char (CHR ''t'')) = (a = CHR ''t'' \<or> a = CHR ''T'')"
  "fold_step (of_char a) (of_char (CHR ''2'')) = (a = CHR ''2'')"
proof -
  have n: "(of_char a :: nat) \<in> {..<256}" by simp
  have w: "(of_char a :: 8 word) = word_of_nat (of_char a)"
    by (simp add: of_nat_of_char)
  have e: "(of_char a = (0x67::nat)) = (a = CHR ''g'')" "(of_char a = (0x47::nat)) = (a = CHR ''G'')"
    "(of_char a = (0x70::nat)) = (a = CHR ''p'')" "(of_char a = (0x50::nat)) = (a = CHR ''P'')"
    "(of_char a = (0x74::nat)) = (a = CHR ''t'')" "(of_char a = (0x54::nat)) = (a = CHR ''T'')"
    "(of_char a = (0x32::nat)) = (a = CHR ''2'')"
    using of_char_eq_iff_nat [of a "CHR ''g''"] of_char_eq_iff_nat [of a "CHR ''G''"]
      of_char_eq_iff_nat [of a "CHR ''p''"] of_char_eq_iff_nat [of a "CHR ''P''"]
      of_char_eq_iff_nat [of a "CHR ''t''"] of_char_eq_iff_nat [of a "CHR ''T''"]
      of_char_eq_iff_nat [of a "CHR ''2''"]
    by simp_all
  from fold_step_table n have t:
     "fold_step (word_of_nat (of_char a)) 0x67 = ((of_char a :: nat) = 0x67 \<or> (of_char a :: nat) = 0x47)"
     "fold_step (word_of_nat (of_char a)) 0x70 = ((of_char a :: nat) = 0x70 \<or> (of_char a :: nat) = 0x50)"
     "fold_step (word_of_nat (of_char a)) 0x74 = ((of_char a :: nat) = 0x74 \<or> (of_char a :: nat) = 0x54)"
     "fold_step (word_of_nat (of_char a)) 0x32 = ((of_char a :: nat) = 0x32)"
    by blast+
  show "fold_step (of_char a) (of_char (CHR ''g'')) = (a = CHR ''g'' \<or> a = CHR ''G'')"
    "fold_step (of_char a) (of_char (CHR ''p'')) = (a = CHR ''p'' \<or> a = CHR ''P'')"
    "fold_step (of_char a) (of_char (CHR ''t'')) = (a = CHR ''t'' \<or> a = CHR ''T'')"
    "fold_step (of_char a) (of_char (CHR ''2'')) = (a = CHR ''2'')"
    unfolding w using t e by simp_all
qed

lemma EqualFold_four:
  "EqualFold [a, b, c, d] ''gpt2'' =
     ((a = CHR ''g'' \<or> a = CHR ''G'') \<and> (b = CHR ''p'' \<or> b = CHR ''P'') \<and>
      (c = CHR ''t'' \<or> c = CHR ''T'') \<and> d = CHR ''2'')"
  using fold_step_gpt2 [of a] fold_step_gpt2 [of b] fold_step_gpt2 [of c] fold_step_gpt2 [of d]
  by simp

lemma EqualFold_length: "EqualFold s t \<Longrightarrow> length s = length t"
  by (induction s t rule: EqualFold.induct) (simp_all split: if_splits)

lemma supported_four_if:
  assumes "a = CHR ''g'' \<or> a = CHR ''G''" "b = CHR ''p'' \<or> b = CHR ''P''"
    "c = CHR ''t'' \<or> c = CHR ''T''" "d = CHR ''2''"
  shows "supported_tokenizer [a, b, c, d]"
  using assms unfolding supported_tokenizer_def
  by (elim disjE) simp_all

lemma supported_four_only_if:
  assumes "supported_tokenizer [a, b, c, d]"
  shows "(a = CHR ''g'' \<or> a = CHR ''G'') \<and> (b = CHR ''p'' \<or> b = CHR ''P'') \<and>
      (c = CHR ''t'' \<or> c = CHR ''T'') \<and> d = CHR ''2''"
proof -
  from assms have "[a, b, c, d] = ''gpt2'' \<or> [a, b, c, d] = ''gpT2'' \<or> [a, b, c, d] = ''gPt2'' \<or>
    [a, b, c, d] = ''gPT2'' \<or> [a, b, c, d] = ''Gpt2'' \<or> [a, b, c, d] = ''GpT2'' \<or>
    [a, b, c, d] = ''GPt2'' \<or> [a, b, c, d] = ''GPT2''"
    unfolding supported_tokenizer_def by (simp only: list.set insert_iff empty_iff simp_thms)
  then show ?thesis
    by (elim disjE) simp_all
qed

lemma supported_four:
  "supported_tokenizer [a, b, c, d] =
     ((a = CHR ''g'' \<or> a = CHR ''G'') \<and> (b = CHR ''p'' \<or> b = CHR ''P'') \<and>
      (c = CHR ''t'' \<or> c = CHR ''T'') \<and> d = CHR ''2'')"
  using supported_four_if [of a b c d] supported_four_only_if [of a b c d] by blast

lemma supported_length: "supported_tokenizer s \<Longrightarrow> length s = 4"
proof -
  assume "supported_tokenizer s"
  then have "s = ''gpt2'' \<or> s = ''gpT2'' \<or> s = ''gPt2'' \<or> s = ''gPT2'' \<or> s = ''Gpt2'' \<or>
      s = ''GpT2'' \<or> s = ''GPt2'' \<or> s = ''GPT2''"
    unfolding supported_tokenizer_def by (simp only: list.set insert_iff empty_iff simp_thms)
  then show ?thesis by (elim disjE) simp_all
qed

lemma length_four: "length s = 4 \<Longrightarrow> \<exists>a b c d. s = [a, b, c, d]"
  by (auto simp: numeral_eq_Suc length_Suc_conv)

lemma EqualFold_gpt2_iff: "EqualFold s ''gpt2'' = supported_tokenizer s"
proof (cases "length s = 4")
  case True
  then obtain a b c d where "s = [a, b, c, d]"
    using length_four by blast
  then show ?thesis
    by (simp only: EqualFold_four supported_four)
next
  case False
  then show ?thesis
    using EqualFold_length [of s "''gpt2''"] supported_length [of s] by auto
qed

lemma New_unsupported:
  "\<not> supported_tokenizer (String c ''tokenizer.ggml.model'' []) \<Longrightarrow>
     New nb c =
       Inr (Inl (Error (''tokenizer '' @ String c ''tokenizer.ggml.model'' [] @ '' not yet supported'')))"
  by (simp add: New_def EqualFold_gpt2_iff)

lemma New_panics:
  "supported_tokenizer (String c ''tokenizer.ggml.model'' []) \<Longrightarrow>
   nb (String c ''tokenizer.ggml.pretokenizer'' [default_pretokenizer]) (config_Vocabulary c) = Inl p \<Longrightarrow>
     New nb c = Inl p"
  by (simp add: New_def EqualFold_gpt2_iff)

lemma New_returns_model:
  "supported_tokenizer (String c ''tokenizer.ggml.model'' []) \<Longrightarrow>
   nb (String c ''tokenizer.ggml.pretokenizer'' [default_pretokenizer]) (config_Vocabulary c) = Inr bpe \<Longrightarrow>
     \<exists>m. New nb c = Inr (Inr m) \<and>
       BytePairEncoding m = bpe \<and>
       Cache m = Some \<lparr>shiftFn = Shift, curLayer = 0, entries = (\<lambda>layer. [])\<rparr> \<and>
       numHeads (Options m) = ucast (Uint c ''attention.head_count'' []) \<and>
       numKVHeads (Options m) = ucast (Uint c ''attention.head_count_kv'' [])"
  by (simp add: New_def Let_def NewCausalCache_def EqualFold_gpt2_iff)

lemma New_model_cases:
  assumes "New nb c = Inr (Inr m)"
  shows "supported_tokenizer (String c ''tokenizer.ggml.model'' []) \<and>
     (\<exists>bpe. nb (String c ''tokenizer.ggml.pretokenizer'' [default_pretokenizer])
               (config_Vocabulary c) = Inr bpe)"
proof (cases "supported_tokenizer (String c ''tokenizer.ggml.model'' [])")
  case False
  from New_unsupported [OF False, of nb] assms show ?thesis by simp
next
  case True
  show ?thesis
  proof (cases "nb (String c ''tokenizer.ggml.pretokenizer'' [default_pretokenizer])
               (config_Vocabulary c)")
    case (Inl p)
    from New_panics [of c nb p, OF True Inl] assms show ?thesis by simp
  next
    case (Inr bpe)
    with True show ?thesis by blast
  qed
qed

lemma New_model:
  assumes "New nb c = Inr (Inr m)"
  shows "Cache m = Some \<lparr>shiftFn = Shift, curLayer = 0, entries = (\<lambda>layer. [])\<rparr> \<and>
     numHeads (Options m) = ucast (Uint c ''attention.head_count'' []) \<and>
     numKVHeads (Options m) = ucast (Uint c ''attention.head_count_kv'' [])"
proof -
  from New_model_cases [OF assms] obtain bpe where
    "supported_tokenizer (String c ''tokenizer.ggml.model'' [])"
    "nb (String c ''tokenizer.ggml.pretokenizer'' [default_pretokenizer]) (config_Vocabulary c) = Inr bpe"
    by blast
  from New_returns_model [of c nb bpe, OF this] assms show ?thesis by auto
qed

lemma example_New:
  "New example_NewBytePairEncoding (example_Config t h k) =
     (if supported_tokenizer t then
        Inr (Inr \<lparr>
          BytePairEncoding = BPE_Handle 0,
          TokenEmbedding = None,
          Layers = [zero_Layer],
          OutputNorm = None,
          Output = None,
          Options = \<lparr>hiddenSize = 8, numHeads = ucast h, numKVHeads = ucast k, headDim = 0,
            eps = 0, ropeBase = 0, ropeScale = float32_one, ropeDim = 0\<rparr>,
          Cache = Some (NewCausalCache Shift)\<rparr>)
      else Inr (Inl (Error (''tokenizer '' @ t @ '' not yet supported''))))"
proof -
  have "default_pretokenizer \<noteq> ''(''"
    by (simp add: default_pretokenizer_def)
  then show ?thesis
    by (simp add: New_def EqualFold_gpt2_iff example_Config_def example_NewBytePairEncoding_def
        config_Vocabulary_def Let_def)
qed

subsection \<open>The claims about the decoder\<close>

text \<open>
  C1.  The claim asks \<open>Shift\<close> to call the rotary transform with the rotary
  dimension count and type flag of \<open>SelfAttention.Forward\<close>.  In the scenario
  of the spec (rotary dimension 4) the key that \<open>Forward\<close> appends to the cache
  was rotated with the two \<open>uint32\<close> arguments 4 and 0, and \<open>Shift\<close>
  rotates it again with 0 and 4: the two arguments are exchanged.
\<close>

theorem Shift_swaps_rope_arguments:
  "Shift example_Model 0 (Handle 7) (Handle 8) =
     Inr (Inr (RoPE (Handle 7) (Handle 8) None 0 4 0x461C4000 float32_one)) \<and>
   map fst (entries (snd (projr (SelfAttention_Forward example_Backend
       (Some example_SelfAttention) (Handle 9) (Handle 8) (NewCausalCache Shift)
       example_Options))) 0) =
     [RoPE (Reshape (Linear_Forward (Linear 2) (Handle 9)) [4, 1, 3]) (Handle 8) None
        4 0 0x461C4000 float32_one]"
  by (simp add: Shift_def example_Model_def example_Layer_def example_SelfAttention_def
      example_Options_def example_Backend_def SelfAttention_Forward_def head_dim_def
      Attention_def cache_append_def cache_attend_def NewCausalCache_def Let_def)

text \<open>
  C2, as amended.  \<open>New\<close> has no check of the head counts.  Whenever the
  tokenizer is the supported one and the constructor of the encoding returns,
  \<open>New\<close> returns a model; and whenever \<open>New\<close> returns a model, its options
  hold the configured numbers of heads and of key/value heads as they are.
\<close>

theorem New_keeps_head_counts:
  "(supported_tokenizer (String c ''tokenizer.ggml.model'' []) \<and>
    nb (String c ''tokenizer.ggml.pretokenizer'' [default_pretokenizer]) (config_Vocabulary c) = Inr bpe \<longrightarrow>
      (\<exists>m. New nb c = Inr (Inr m))) \<and>
   (\<forall>m. New nb c = Inr (Inr m) \<longrightarrow>
      numHeads (Options m) = ucast (Uint c ''attention.head_count'' []) \<and>
      numKVHeads (Options m) = ucast (Uint c ''attention.head_count_kv'' []))"
  using New_returns_model [of c nb bpe] New_model [of nb c] by blast

theorem New_keeps_head_counts_witness:
  "supported_tokenizer (String (example_Config ''GPT2'' 5 2) ''tokenizer.ggml.model'' []) \<and>
   \<not> isl (New example_NewBytePairEncoding (example_Config ''GPT2'' 5 2)) \<and>
   \<not> isl (projr (New example_NewBytePairEncoding (example_Config ''GPT2'' 5 2))) \<and>
   numHeads (Options (projr (projr (New example_NewBytePairEncoding (example_Config ''GPT2'' 5 2))))) = 5 \<and>
   numKVHeads (Options (projr (projr (New example_NewBytePairEncoding (example_Config ''GPT2'' 5 2))))) = 2"
proof -
  let ?c = "example_Config ''GPT2'' 5 2"
  have 1: "supported_tokenizer (String ?c ''tokenizer.ggml.model'' [])"
    by (simp add: example_Config_def supported_tokenizer_def)
  have "default_pretokenizer \<noteq> ''(''"
    by (simp add: default_pretokenizer_def)
  then have 2: "example_NewBytePairEncoding
      (String ?c ''tokenizer.ggml.pretokenizer'' [default_pretokenizer]) (config_Vocabulary ?c) =
      Inr (BPE_Handle 0)"
    by (simp add: example_Config_def example_NewBytePairEncoding_def config_Vocabulary_def)
  have u: "Uint ?c ''attention.head_count'' [] = 5" "Uint ?c ''attention.head_count_kv'' [] = 2"
    by (simp_all add: example_Config_def)
  note inst = New_keeps_head_counts [of ?c example_NewBytePairEncoding "BPE_Handle 0"]
  from inst [THEN conjunct1, rule_format, OF conjI [OF 1 2]] obtain m where
    m: "New example_NewBytePairEncoding ?c = Inr (Inr m)" by blast
  from inst [THEN conjunct2, rule_format, OF m]
  have "numHeads (Options m) = 5" "numKVHeads (Options m) = 2"
    unfolding u by simp_all
  with 1 m show ?thesis by simp
qed

text \<open>
  C2 as stated fails: with three heads and two key/value heads \<open>New\<close>
  returns a model, and three is not divisible by two.
\<close>

theorem New_indivisible_heads_counterexample:
  "\<not> isl (New example_NewBytePairEncoding (example_Config ''gpt2'' 3 2)) \<and>
   \<not> isl (projr (New example_NewBytePairEncoding (example_Config ''gpt2'' 3 2))) \<and>
   numHeads (Options (projr (projr (New example_NewBytePairEncoding (example_Config ''gpt2'' 3 2))))) = 3 \<and>
   numKVHeads (Options (projr (projr (New example_NewBytePairEncoding (example_Config ''gpt2'' 3 2))))) = 2 \<and>
   uint (numHeads (Options (projr (projr (New example_NewBytePairEncoding (example_Config ''gpt2'' 3 2)))))) mod
     uint (numKVHeads (Options (projr (projr (New example_NewBytePairEncoding (example_Config ''gpt2'' 3 2)))))) = 1"
  by (simp add: example_New supported_tokenizer_def)

text \<open>
  C3.  When the conversions succeed and the layers are \<open>init @ [l]\<close>,
  \<open>Model.Forward\<close> runs the layers of \<open>init\<close> with nil for the output
  indices and the last layer \<open>l\<close> with the converted outputs.  A layer that
  receives output indices gathers the rows of both the attention result and the
  residual before it adds them and before the feed-forward stage; a layer that
  receives nil gathers nothing.
\<close>

theorem pruning_only_in_last_layer:
  assumes "Input_FromIntSlice be (Inputs opts) (int (length (Inputs opts))) = Inr inputs"
    and "Input_FromIntSlice be (Positions opts) (int (length (Positions opts))) = Inr positions"
    and "Output_FromIntSlice be (Outputs opts) (int (length (Outputs opts))) = Inr outputs"
    and "TokenEmbedding m = Some emb"
    and "Layers m = init @ [l]"
  shows
   "Model_Forward be m opts =
      and_then (run_unpruned be (Options m) positions 0 init (Embedding_Forward emb inputs) (Cache m))
        (\<lambda>(h, c).
      and_then (deref c) (\<lambda>c.
      and_then (Layer_Forward be l h positions (Some outputs) (SetLayer c (int (length init))) (Options m))
        (\<lambda>(h, c).
      and_then (deref (OutputNorm m)) (\<lambda>norm.
      and_then (deref (Weights.Output m)) (\<lambda>out.
        Inr (Inr (Linear_Forward out (RMSNorm_Forward norm h (eps (Options m)))),
             m\<lparr>Cache := Some c\<rparr>)))))) \<and>
    (\<forall>l h pos outs c ops an a c' mn f.
       AttentionNorm l = Some an \<and>
       SelfAttention_Forward be (Layer.SelfAttention l) (RMSNorm_Forward an h (eps ops)) pos c ops = Inr (a, c') \<and>
       MLPNorm l = Some mn \<and>
       MLP_Forward (Layer.MLP l) (RMSNorm_Forward mn (Add (Rows a outs) (Rows h outs)) (eps ops)) ops = Inr f \<longrightarrow>
       Layer_Forward be l h pos (Some outs) c ops = Inr (Add f (Add (Rows a outs) (Rows h outs)), c')) \<and>
    (\<forall>l h pos c ops an a c' mn f.
       AttentionNorm l = Some an \<and>
       SelfAttention_Forward be (Layer.SelfAttention l) (RMSNorm_Forward an h (eps ops)) pos c ops = Inr (a, c') \<and>
       MLPNorm l = Some mn \<and>
       MLP_Forward (Layer.MLP l) (RMSNorm_Forward mn (Add a h) (eps ops)) ops = Inr f \<longrightarrow>
       Layer_Forward be l h pos None c ops = Inr (Add f (Add a h), c'))"
proof (intro conjI allI impI)
  have loop: "layers_loop be (Options m) positions outputs (int (length (Layers m))) 0 (Layers m)
       (Embedding_Forward emb inputs) (Cache m) =
     and_then (run_unpruned be (Options m) positions 0 init (Embedding_Forward emb inputs) (Cache m))
       (\<lambda>(h', c').
     and_then (deref c') (\<lambda>c0.
     and_then (Layer_Forward be l h' positions (Some outputs) (SetLayer c0 (int (length init))) (Options m))
       (\<lambda>(h'', c''). Inr (h'', Some c''))))"
    using layers_loop_last [of be "Options m" positions outputs 0 init l] assms(5)
    by (simp add: ac_simps)
  show "Model_Forward be m opts =
      and_then (run_unpruned be (Options m) positions 0 init (Embedding_Forward emb inputs) (Cache m))
        (\<lambda>(h, c).
      and_then (deref c) (\<lambda>c.
      and_then (Layer_Forward be l h positions (Some outputs) (SetLayer c (int (length init))) (Options m))
        (\<lambda>(h, c).
      and_then (deref (OutputNorm m)) (\<lambda>norm.
      and_then (deref (Weights.Output m)) (\<lambda>out.
        Inr (Inr (Linear_Forward out (RMSNorm_Forward norm h (eps (Options m)))),
             m\<lparr>Cache := Some c\<rparr>))))))"
    by (simp add: Model_Forward_def assms(1-4) loop and_then_assoc split_def)
next
  fix l :: Layer and h pos outs c ops an a c' mn f
  assume "AttentionNorm l = Some an \<and>
       SelfAttention_Forward be (Layer.SelfAttention l) (RMSNorm_Forward an h (eps ops)) pos c ops = Inr (a, c') \<and>
       MLPNorm l = Some mn \<and>
       MLP_Forward (Layer.MLP l) (RMSNorm_Forward mn (Add (Rows a outs) (Rows h outs)) (eps ops)) ops = Inr f"
  then show "Layer_Forward be l h pos (Some outs) c ops = Inr (Add f (Add (Rows a outs) (Rows h outs)), c')"
    using Layer_Forward_pruned by blast
next
  fix l :: Layer and h pos c ops an a c' mn f
  assume "AttentionNorm l = Some an \<and>
       SelfAttention_Forward be (Layer.SelfAttention l) (RMSNorm_Forward an h (eps ops)) pos c ops = Inr (a, c') \<and>
       MLPNorm l = Some mn \<and>
       MLP_Forward (Layer.MLP l) (RMSNorm_Forward mn (Add a h) (eps ops)) ops = Inr f"
  then show "Layer_Forward be l h pos None c ops = Inr (Add f (Add a h), c')"
    using Layer_Forward_unpruned by blast
qed

theorem pruning_only_in_last_layer_witness:
  "Layers example_Model = [example_Layer] @ [example_last_Layer] \<and>
   Model_Forward example_Backend example_Model example_input =
     and_then (run_unpruned example_Backend example_Options (Handle 0) 0 [example_Layer]
                 (Embedding_Forward (Embedding 100) (Handle 5)) (Some (NewCausalCache Shift)))
       (\<lambda>(h, c).
     and_then (deref c) (\<lambda>c.
     and_then (Layer_Forward example_Backend example_last_Layer h (Handle 0) (Some (Handle 1002))
                 (SetLayer c 1) example_Options)
       (\<lambda>(h, c).
        Inr (Inr (Linear_Forward (Linear 102)
                    (RMSNorm_Forward (RMSNorm 101) h (eps example_Options))),
             example_Model\<lparr>Cache := Some c\<rparr>)))) \<and>
   (let att = attention_steps example_Backend (Linear 11) (Linear 12) (Linear 13) (Linear 14) None
                example_Options 4 (RMSNorm_Forward (RMSNorm 10) (Handle 20) (eps example_Options))
                (Handle 0) (NewCausalCache Shift);
        r = Add (Rows (fst att) (Handle 1002)) (Rows (Handle 20) (Handle 1002));
        x = RMSNorm_Forward (RMSNorm 15) r (eps example_Options)
    in Layer_Forward example_Backend example_last_Layer (Handle 20) (Handle 0) (Some (Handle 1002))
         (NewCausalCache Shift) example_Options =
       Inr (Add (Linear_Forward (Linear 17)
                   (Mul (SILU (Linear_Forward (Linear 18) x)) (Linear_Forward (Linear 16) x))) r,
            snd att)) \<and>
   (let att = attention_steps example_Backend (Linear 11) (Linear 12) (Linear 13) (Linear 14) None
                example_Options 4 (RMSNorm_Forward (RMSNorm 10) (Handle 20) (eps example_Options))
                (Handle 0) (NewCausalCache Shift);
        r = Add (fst att) (Handle 20);
        x = RMSNorm_Forward (RMSNorm 15) r (eps example_Options)
    in Layer_Forward example_Backend example_last_Layer (Handle 20) (Handle 0) None
         (NewCausalCache Shift) example_Options =
       Inr (Add (Linear_Forward (Linear 17)
                   (Mul (SILU (Linear_Forward (Linear 18) x)) (Linear_Forward (Linear 16) x))) r,
            snd att))"
proof -
  let ?att = "attention_steps example_Backend (Linear 11) (Linear 12) (Linear 13) (Linear 14) None
                example_Options 4 (RMSNorm_Forward (RMSNorm 10) (Handle 20) (eps example_Options))
                (Handle 0) (NewCausalCache Shift)"
  let ?r = "Add (Rows (fst ?att) (Handle 1002)) (Rows (Handle 20) (Handle 1002))"
  let ?x = "RMSNorm_Forward (RMSNorm 15) ?r (eps example_Options)"
  let ?f = "Linear_Forward (Linear 17)
              (Mul (SILU (Linear_Forward (Linear 18) ?x)) (Linear_Forward (Linear 16) ?x))"
  let ?rn = "Add (fst ?att) (Handle 20)"
  let ?xn = "RMSNorm_Forward (RMSNorm 15) ?rn (eps example_Options)"
  let ?fn = "Linear_Forward (Linear 17)
              (Mul (SILU (Linear_Forward (Linear 18) ?xn)) (Linear_Forward (Linear 16) ?xn))"
  have a1: "Input_FromIntSlice example_Backend (Inputs example_input)
      (int (length (Inputs example_input))) = Inr (Handle 5)"
    by (simp add: example_Backend_def example_input_def)
  have a2: "Input_FromIntSlice example_Backend (Positions example_input)
      (int (length (Positions example_input))) = Inr (Handle 0)"
    by (simp add: example_Backend_def example_input_def)
  have a3: "Output_FromIntSlice example_Backend (Outputs example_input)
      (int (length (Outputs example_input))) = Inr (Handle 1002)"
    by (simp add: example_Backend_def example_input_def)
  have a4: "TokenEmbedding example_Model = Some (Embedding 100)"
    by (simp add: example_Model_def)
  have a5: "Layers example_Model = [example_Layer] @ [example_last_Layer]"
    by (simp add: example_Model_def)
  note inst = pruning_only_in_last_layer [OF a1 a2 a3 a4 a5]
  have m: "Options example_Model = example_Options" "Cache example_Model = Some (NewCausalCache Shift)"
    "OutputNorm example_Model = Some (RMSNorm 101)" "Weights.Output example_Model = Some (Linear 102)"
    by (simp_all add: example_Model_def)
  have hd4: "head_dim example_Options = Inr 4"
    by (simp add: head_dim_def example_Options_def)
  have sa: "SelfAttention_Forward example_Backend (Layer.SelfAttention example_last_Layer)
      (RMSNorm_Forward (RMSNorm 10) (Handle 20) (eps example_Options)) (Handle 0)
      (NewCausalCache Shift) example_Options = Inr (fst ?att, snd ?att)"
    using SelfAttention_Forward_steps [OF hd4, of example_Backend "Linear 11" "Linear 12"
        "Linear 13" "Linear 14" None]
    by (simp add: example_last_Layer_def)
  have h1: "AttentionNorm example_last_Layer = Some (RMSNorm 10) \<and>
      SelfAttention_Forward example_Backend (Layer.SelfAttention example_last_Layer)
        (RMSNorm_Forward (RMSNorm 10) (Handle 20) (eps example_Options)) (Handle 0)
        (NewCausalCache Shift) example_Options = Inr (fst ?att, snd ?att) \<and>
      MLPNorm example_last_Layer = Some (RMSNorm 15) \<and>
      MLP_Forward (Layer.MLP example_last_Layer) ?x example_Options = Inr ?f"
    using sa by (simp add: example_last_Layer_def MLP_Forward_def)
  have h2: "AttentionNorm example_last_Layer = Some (RMSNorm 10) \<and>
      SelfAttention_Forward example_Backend (Layer.SelfAttention example_last_Layer)
        (RMSNorm_Forward (RMSNorm 10) (Handle 20) (eps example_Options)) (Handle 0)
        (NewCausalCache Shift) example_Options = Inr (fst ?att, snd ?att) \<and>
      MLPNorm example_last_Layer = Some (RMSNorm 15) \<and>
      MLP_Forward (Layer.MLP example_last_Layer) ?xn example_Options = Inr ?fn"
    using sa by (simp add: example_last_Layer_def MLP_Forward_def)
  have 1: "Model_Forward example_Backend example_Model example_input =
     and_then (run_unpruned example_Backend example_Options (Handle 0) 0 [example_Layer]
                 (Embedding_Forward (Embedding 100) (Handle 5)) (Some (NewCausalCache Shift)))
       (\<lambda>(h, c).
     and_then (deref c) (\<lambda>c.
     and_then (Layer_Forward example_Backend example_last_Layer h (Handle 0) (Some (Handle 1002))
                 (SetLayer c 1) example_Options)
       (\<lambda>(h, c).
        Inr (Inr (Linear_Forward (Linear 102)
                    (RMSNorm_Forward (RMSNorm 101) h (eps example_Options))),
             example_Model\<lparr>Cache := Some c\<rparr>))))"
    using inst [THEN conjunct1] unfolding m by simp
  have 2: "Layer_Forward example_Backend example_last_Layer (Handle 20) (Handle 0) (Some (Handle 1002))
         (NewCausalCache Shift) example_Options = Inr (Add ?f ?r, snd ?att)"
    using inst [THEN conjunct2, THEN conjunct1, rule_format, OF h1] .
  have 3: "Layer_Forward example_Backend example_last_Layer (Handle 20) (Handle 0) None
         (NewCausalCache Shift) example_Options = Inr (Add ?fn ?rn, snd ?att)"
    using inst [THEN conjunct2, THEN conjunct2, rule_format, OF h2] .
  from a5 1 2 3 show ?thesis
    unfolding Let_def by (intro conjI)
qed

text \<open>
  C4.  For loaded weights and head dimension \<open>hdim\<close>,
  \<open>SelfAttention.Forward\<close> returns the output projection of the reshaped
  attention of the rotated query over the cache extended by the rotated key and the
  value, which is reshaped and not rotated; rotation has type flag 0, the scale is
  \<open>1 / sqrt hdim\<close>, and the cache afterwards holds the new key and value.
\<close>

theorem SelfAttention_Forward_spec:
  assumes "head_dim opts = Inr hdim"
  shows "SelfAttention_Forward be
           (Some \<lparr>Query = Some wq, Key = Some wk, Value = Some wv, Output = Some wo,
                  RopeFactors = factors\<rparr>) x positions cache opts =
         Inr (Linear_Forward wo
                (Reshape
                   (Attend
                      (RoPE (Reshape (Linear_Forward wq x) [hdim, numHeads opts, Dim be x 1])
                         positions factors (ropeDim opts) 0 (ropeBase opts) (ropeScale opts))
                      (entries cache (curLayer cache) @
                         [(RoPE (Reshape (Linear_Forward wk x) [hdim, numKVHeads opts, Dim be x 1])
                             positions factors (ropeDim opts) 0 (ropeBase opts) (ropeScale opts),
                           Reshape (Linear_Forward wv x) [hdim, numKVHeads opts, Dim be x 1])])
                      (Quo (Float64_lit 1) (Sqrt (Float64_of_int hdim))))
                   [hdim * numHeads opts, Dim be x 1]),
              cache\<lparr>entries := (entries cache)(curLayer cache :=
                 entries cache (curLayer cache) @
                   [(RoPE (Reshape (Linear_Forward wk x) [hdim, numKVHeads opts, Dim be x 1])
                       positions factors (ropeDim opts) 0 (ropeBase opts) (ropeScale opts),
                     Reshape (Linear_Forward wv x) [hdim, numKVHeads opts, Dim be x 1])])\<rparr>)"
  by (simp add: SelfAttention_Forward_steps [OF assms] attention_steps_def cache_append_def
      cache_attend_def Let_def)

theorem SelfAttention_Forward_spec_witness:
  "head_dim example_Options = Inr 4 \<and>
   SelfAttention_Forward example_Backend (Some example_SelfAttention) (Handle 9) (Handle 8)
       (NewCausalCache Shift) example_Options =
     Inr (Linear_Forward (Linear 4)
            (Reshape
               (Attend
                  (RoPE (Reshape (Linear_Forward (Linear 1) (Handle 9)) [4, 2, 3])
                     (Handle 8) None 4 0 0x461C4000 float32_one)
                  [(RoPE (Reshape (Linear_Forward (Linear 2) (Handle 9)) [4, 1, 3])
                      (Handle 8) None 4 0 0x461C4000 float32_one,
                    Reshape (Linear_Forward (Linear 3) (Handle 9)) [4, 1, 3])]
                  (Quo (Float64_lit 1) (Sqrt (Float64_of_int 4))))
               [8, 3]),
          \<lparr>shiftFn = Shift, curLayer = 0,
             entries = (\<lambda>layer. [])(0 :=
               [(RoPE (Reshape (Linear_Forward (Linear 2) (Handle 9)) [4, 1, 3])
                   (Handle 8) None 4 0 0x461C4000 float32_one,
                 Reshape (Linear_Forward (Linear 3) (Handle 9)) [4, 1, 3])])\<rparr>)"
proof -
  have h: "head_dim example_Options = Inr 4"
    by (simp add: head_dim_def example_Options_def)
  show ?thesis
    using h SelfAttention_Forward_spec [OF h, of example_Backend "Linear 1" "Linear 2" "Linear 3"
        "Linear 4" None "Handle 9" "Handle 8" "NewCausalCache Shift"]
    by (simp add: example_SelfAttention_def example_Options_def example_Backend_def
        NewCausalCache_def)
qed

text \<open>
  C5.  \<open>MLP.Forward\<close> on loaded weights is the down projection of the product of
  the SiLU of the gate projection with the up projection.  It takes and returns no
  cache, and the result depends on the input and the three weights only.
\<close>

theorem MLP_Forward_spec:
  "MLP_Forward (Some \<lparr>Up = Some up, Down = Some down, Gate = Some gate\<rparr>) x opts =
     Inr (Linear_Forward down (Mul (SILU (Linear_Forward gate x)) (Linear_Forward up x)))"
  by (simp add: MLP_Forward_def)

text \<open>
  C6.  The head dimension of every reshape and of the scale in
  \<open>SelfAttention.Forward\<close> is the configured \<open>headDim\<close> when that is not
  zero, and \<open>hiddenSize / numHeads\<close> when it is zero; the division panics
  when \<open>numHeads\<close> is zero as well.
\<close>

theorem head_dim_explicit_or_derived:
  "(headDim opts \<noteq> 0 \<longrightarrow>
      SelfAttention_Forward be
        (Some \<lparr>Query = Some wq, Key = Some wk, Value = Some wv, Output = Some wo,
               RopeFactors = factors\<rparr>) x positions cache opts =
      Inr (attention_steps be wq wk wv wo factors opts (headDim opts) x positions cache)) \<and>
   (headDim opts = 0 \<and> numHeads opts \<noteq> 0 \<longrightarrow>
      SelfAttention_Forward be
        (Some \<lparr>Query = Some wq, Key = Some wk, Value = Some wv, Output = Some wo,
               RopeFactors = factors\<rparr>) x positions cache opts =
      Inr (attention_steps be wq wk wv wo factors opts
             (word_of_int (sint (hiddenSize opts) sdiv sint (numHeads opts))) x positions cache)) \<and>
   (headDim opts = 0 \<and> numHeads opts = 0 \<longrightarrow>
      SelfAttention_Forward be
        (Some \<lparr>Query = Some wq, Key = Some wk, Value = Some wv, Output = Some wo,
               RopeFactors = factors\<rparr>) x positions cache opts = Inl DivideByZero)"
proof (intro conjI impI)
  assume "headDim opts \<noteq> 0"
  then have "head_dim opts = Inr (headDim opts)"
    by (simp add: head_dim_def)
  then show "SelfAttention_Forward be
        (Some \<lparr>Query = Some wq, Key = Some wk, Value = Some wv, Output = Some wo,
               RopeFactors = factors\<rparr>) x positions cache opts =
      Inr (attention_steps be wq wk wv wo factors opts (headDim opts) x positions cache)"
    by (rule SelfAttention_Forward_steps)
next
  assume "headDim opts = 0 \<and> numHeads opts \<noteq> 0"
  then have "head_dim opts = Inr (word_of_int (sint (hiddenSize opts) sdiv sint (numHeads opts)))"
    by (simp add: head_dim_def int_quo_def)
  then show "SelfAttention_Forward be
        (Some \<lparr>Query = Some wq, Key = Some wk, Value = Some wv, Output = Some wo,
               RopeFactors = factors\<rparr>) x positions cache opts =
      Inr (attention_steps be wq wk wv wo factors opts
             (word_of_int (sint (hiddenSize opts) sdiv sint (numHeads opts))) x positions cache)"
    by (rule SelfAttention_Forward_steps)
next
  assume "headDim opts = 0 \<and> numHeads opts = 0"
  then have "head_dim opts = Inl DivideByZero"
    by (simp add: head_dim_def int_quo_def)
  then show "SelfAttention_Forward be
        (Some \<lparr>Query = Some wq, Key = Some wk, Value = Some wv, Output = Some wo,
               RopeFactors = factors\<rparr>) x positions cache opts = Inl DivideByZero"
    by (simp add: SelfAttention_Forward_def)
qed

theorem head_dim_explicit_or_derived_witness:
  "SelfAttention_Forward example_Backend (Some example_SelfAttention) (Handle 9) (Handle 8)
       (NewCausalCache Shift) example_Options =
     Inr (attention_steps example_Backend (Linear 1) (Linear 2) (Linear 3) (Linear 4) None
            example_Options 4 (Handle 9) (Handle 8) (NewCausalCache Shift)) \<and>
   SelfAttention_Forward example_Backend (Some example_SelfAttention) (Handle 9) (Handle 8)
       (NewCausalCache Shift) (example_Options\<lparr>headDim := 0\<rparr>) =
     Inr (attention_steps example_Backend (Linear 1) (Linear 2) (Linear 3) (Linear 4) None
            (example_Options\<lparr>headDim := 0\<rparr>) 4 (Handle 9) (Handle 8) (NewCausalCache Shift)) \<and>
   SelfAttention_Forward example_Backend (Some example_SelfAttention) (Handle 9) (Handle 8)
       (NewCausalCache Shift) (example_Options\<lparr>headDim := 0, numHeads := 0\<rparr>) =
     Inl DivideByZero"
proof -
  note inst = head_dim_explicit_or_derived [of _ example_Backend "Linear 1" "Linear 2"
      "Linear 3" "Linear 4" None "Handle 9" "Handle 8" "NewCausalCache Shift"]
  have 1: "headDim example_Options \<noteq> 0" "headDim example_Options = 4"
    by (simp_all add: example_Options_def)
  have 2: "headDim (example_Options\<lparr>headDim := 0\<rparr>) = 0 \<and>
      numHeads (example_Options\<lparr>headDim := 0\<rparr>) \<noteq> 0"
    by (simp add: example_Options_def)
  have q: "(word_of_int (sint (hiddenSize (example_Options\<lparr>headDim := 0\<rparr>)) sdiv
        sint (numHeads (example_Options\<lparr>headDim := 0\<rparr>))) :: int64) = 4"
    by (simp add: example_Options_def signed_divide_int_def)
  have 3: "headDim (example_Options\<lparr>headDim := 0, numHeads := 0\<rparr>) = 0 \<and>
      numHeads (example_Options\<lparr>headDim := 0, numHeads := 0\<rparr>) = 0"
    by simp
  from inst [of example_Options, THEN conjunct1, rule_format, OF 1(1)]
    inst [of "example_Options\<lparr>headDim := 0\<rparr>", THEN conjunct2, THEN conjunct1, rule_format, OF 2]
    inst [of "example_Options\<lparr>headDim := 0, numHeads := 0\<rparr>", THEN conjunct2, THEN conjunct2,
      rule_format, OF 3]
  show ?thesis
    unfolding q 1(2) by (simp add: example_SelfAttention_def)
qed

text \<open>
  C7.  \<open>New\<close> returns an error and no model when the tokenizer is not
  \<open>gpt2\<close> (in any letter case).  When the tokenizer is supported, \<open>New\<close>
  panics if the constructor of the encoding panics, and otherwise returns a model.
  Every model that \<open>New\<close> returns has as its cache a new causal cache, empty,
  created with \<open>Shift\<close> as its callback.
\<close>

theorem New_fails_or_wires_cache:
  "(\<not> supported_tokenizer (String c ''tokenizer.ggml.model'' []) \<longrightarrow>
      New nb c =
        Inr (Inl (Error (''tokenizer '' @ String c ''tokenizer.ggml.model'' [] @ '' not yet supported'')))) \<and>
   (supported_tokenizer (String c ''tokenizer.ggml.model'' []) \<and>
    nb (String c ''tokenizer.ggml.pretokenizer'' [default_pretokenizer]) (config_Vocabulary c) = Inl p \<longrightarrow>
      New nb c = Inl p) \<and>
   (supported_tokenizer (String c ''tokenizer.ggml.model'' []) \<and>
    nb (String c ''tokenizer.ggml.pretokenizer'' [default_pretokenizer]) (config_Vocabulary c) = Inr bpe \<longrightarrow>
      (\<exists>m. New nb c = Inr (Inr m) \<and> BytePairEncoding m = bpe)) \<and>
   (\<forall>m. New nb c = Inr (Inr m) \<longrightarrow>
      supported_tokenizer (String c ''tokenizer.ggml.model'' []) \<and>
      Cache m = Some (NewCausalCache Shift) \<and>
      NewCausalCache Shift = \<lparr>shiftFn = Shift, curLayer = 0, entries = (\<lambda>layer. [])\<rparr>)"
proof (intro conjI impI allI)
  assume "\<not> supported_tokenizer (String c ''tokenizer.ggml.model'' [])"
  then show "New nb c =
      Inr (Inl (Error (''tokenizer '' @ String c ''tokenizer.ggml.model'' [] @ '' not yet supported'')))"
    by (rule New_unsupported)
next
  assume "supported_tokenizer (String c ''tokenizer.ggml.model'' []) \<and>
    nb (String c ''tokenizer.ggml.pretokenizer'' [default_pretokenizer]) (config_Vocabulary c) = Inl p"
  then show "New nb c = Inl p"
    using New_panics by blast
next
  assume "supported_tokenizer (String c ''tokenizer.ggml.model'' []) \<and>
    nb (String c ''tokenizer.ggml.pretokenizer'' [default_pretokenizer]) (config_Vocabulary c) = Inr bpe"
  then show "\<exists>m. New nb c = Inr (Inr m) \<and> BytePairEncoding m = bpe"
    using New_returns_model [of c nb bpe] by blast
next
  fix m :: Model
  assume m: "New nb c = Inr (Inr m)"
  show "supported_tokenizer (String c ''tokenizer.ggml.model'' [])"
    using New_model_cases [OF m] by blast
  show "Cache m = Some (NewCausalCache Shift)"
    using New_model [OF m] by (simp add: NewCausalCache_def)
  show "NewCausalCache Shift = \<lparr>shiftFn = Shift, curLayer = 0, entries = (\<lambda>layer. [])\<rparr>"
    by (simp add: NewCausalCache_def)
qed

theorem New_fails_or_wires_cache_witness:
  "New example_NewBytePairEncoding (example_Config ''llama'' 2 1) =
     Inr (Inl (Error ''tokenizer llama not yet supported'')) \<and>
   New example_NewBytePairEncoding example_bad_pattern_Config = Inl InvalidPattern \<and>
   \<not> isl (New example_NewBytePairEncoding (example_Config ''GPT2'' 2 1)) \<and>
   \<not> isl (projr (New example_NewBytePairEncoding (example_Config ''GPT2'' 2 1))) \<and>
   BytePairEncoding (projr (projr (New example_NewBytePairEncoding (example_Config ''GPT2'' 2 1)))) =
     BPE_Handle 0 \<and>
   Cache (projr (projr (New example_NewBytePairEncoding (example_Config ''GPT2'' 2 1)))) =
     Some (NewCausalCache Shift)"
proof -
  let ?l = "example_Config ''llama'' 2 1"
  let ?g = "example_Config ''GPT2'' 2 1"
  let ?b = "example_bad_pattern_Config"
  have ne: "default_pretokenizer \<noteq> ''(''"
    by (simp add: default_pretokenizer_def)
  have 1: "\<not> supported_tokenizer (String ?l ''tokenizer.ggml.model'' [])"
    by (simp add: example_Config_def supported_tokenizer_def)
  have n: "String ?l ''tokenizer.ggml.model'' [] = ''llama''"
    by (simp add: example_Config_def)
  have 2: "supported_tokenizer (String ?b ''tokenizer.ggml.model'' []) \<and>
      example_NewBytePairEncoding
        (String ?b ''tokenizer.ggml.pretokenizer'' [default_pretokenizer]) (config_Vocabulary ?b) =
      Inl InvalidPattern"
    by (simp add: example_bad_pattern_Config_def example_Config_def supported_tokenizer_def
        example_NewBytePairEncoding_def)
  have 3: "supported_tokenizer (String ?g ''tokenizer.ggml.model'' []) \<and>
      example_NewBytePairEncoding
        (String ?g ''tokenizer.ggml.pretokenizer'' [default_pretokenizer]) (config_Vocabulary ?g) =
      Inr (BPE_Handle 0)"
    using ne by (simp add: example_Config_def supported_tokenizer_def
        example_NewBytePairEncoding_def config_Vocabulary_def)
  from New_fails_or_wires_cache [of ?l example_NewBytePairEncoding, THEN conjunct1, rule_format, OF 1]
  have a: "New example_NewBytePairEncoding ?l = Inr (Inl (Error ''tokenizer llama not yet supported''))"
    unfolding n by simp
  from New_fails_or_wires_cache [of ?b example_NewBytePairEncoding InvalidPattern,
      THEN conjunct2, THEN conjunct1, rule_format, OF 2]
  have b: "New example_NewBytePairEncoding ?b = Inl InvalidPattern" .
  from New_fails_or_wires_cache [of ?g example_NewBytePairEncoding _ "BPE_Handle 0",
      THEN conjunct2, THEN conjunct2, THEN conjunct1, rule_format, OF 3]
  obtain m where m: "New example_NewBytePairEncoding ?g = Inr (Inr m)" "BytePairEncoding m = BPE_Handle 0"
    by blast
  from New_fails_or_wires_cache [of ?g example_NewBytePairEncoding,
      THEN conjunct2, THEN conjunct2, THEN conjunct2, rule_format, OF m(1)]
  have c: "Cache m = Some (NewCausalCache Shift)" by blast
  from a b m c show ?thesis by simp
qed

text \<open>
  C8.  When the conversion of the inputs, of the positions or of the outputs fails,
  \<open>Model.Forward\<close> returns that error, and the model, with its cache, is as
  it was: nothing of the embedding or of the layers has run.
\<close>

theorem conversion_failure_returned:
  "(Input_FromIntSlice be (Inputs opts) (int (length (Inputs opts))) = Inl err \<longrightarrow>
      Model_Forward be m opts = Inr (Inl err, m)) \<and>
   (Input_FromIntSlice be (Inputs opts) (int (length (Inputs opts))) = Inr t1 \<and>
    Input_FromIntSlice be (Positions opts) (int (length (Positions opts))) = Inl err \<longrightarrow>
      Model_Forward be m opts = Inr (Inl err, m)) \<and>
   (Input_FromIntSlice be (Inputs opts) (int (length (Inputs opts))) = Inr t1 \<and>
    Input_FromIntSlice be (Positions opts) (int (length (Positions opts))) = Inr t2 \<and>
    Output_FromIntSlice be (Outputs opts) (int (length (Outputs opts))) = Inl err \<longrightarrow>
      Model_Forward be m opts = Inr (Inl err, m))"
  by (simp add: Model_Forward_def)

theorem conversion_failure_returned_witness:
  "Model_Forward example_Backend example_Model \<lparr>Inputs = [], Positions = [0], Outputs = [0]\<rparr> =
     Inr (Inl (Error ''empty input''), example_Model) \<and>
   Model_Forward example_Backend example_Model \<lparr>Inputs = [5], Positions = [], Outputs = [0]\<rparr> =
     Inr (Inl (Error ''empty input''), example_Model) \<and>
   Model_Forward example_Backend example_Model \<lparr>Inputs = [5], Positions = [0], Outputs = []\<rparr> =
     Inr (Inl (Error ''empty output''), example_Model)"
proof -
  note inst = conversion_failure_returned [of example_Backend _ _ example_Model]
  have 1: "Input_FromIntSlice example_Backend
      (Inputs \<lparr>Inputs = [], Positions = [0], Outputs = [0]\<rparr>)
      (int (length (Inputs \<lparr>Inputs = [], Positions = [0], Outputs = [0]\<rparr>))) =
      Inl (Error ''empty input'')"
    by (simp add: example_Backend_def)
  have 2: "Input_FromIntSlice example_Backend
      (Inputs \<lparr>Inputs = [5], Positions = [], Outputs = [0]\<rparr>)
      (int (length (Inputs \<lparr>Inputs = [5], Positions = [], Outputs = [0]\<rparr>))) = Inr (Handle 5) \<and>
    Input_FromIntSlice example_Backend
      (Positions \<lparr>Inputs = [5], Positions = [], Outputs = [0]\<rparr>)
      (int (length (Positions \<lparr>Inputs = [5], Positions = [], Outputs = [0]\<rparr>))) =
      Inl (Error ''empty input'')"
    by (simp add: example_Backend_def)
  have 3: "Input_FromIntSlice example_Backend
      (Inputs \<lparr>Inputs = [5], Positions = [0], Outputs = []\<rparr>)
      (int (length (Inputs \<lparr>Inputs = [5], Positions = [0], Outputs = []\<rparr>))) = Inr (Handle 5) \<and>
    Input_FromIntSlice example_Backend
      (Positions \<lparr>Inputs = [5], Positions = [0], Outputs = []\<rparr>)
      (int (length (Positions \<lparr>Inputs = [5], Positions = [0], Outputs = []\<rparr>))) = Inr (Handle 0) \<and>
    Output_FromIntSlice example_Backend
      (Outputs \<lparr>Inputs = [5], Positions = [0], Outputs = []\<rparr>)
      (int (length (Outputs \<lparr>Inputs = [5], Positions = [0], Outputs = []\<rparr>))) =
      Inl (Error ''empty output'')"
    by (simp add: example_Backend_def)
  from inst [THEN conjunct1, rule_format, OF 1]
    inst [THEN conjunct2, THEN conjunct1, rule_format, OF 2]
    inst [THEN conjunct2, THEN conjunct2, rule_format, OF 3]
  show ?thesis by simp
qed

end
